theory Spec2Isabelle
  imports Main
begin

section \<open>Data model\<close>

text \<open>
  The extension \<^verbatim>\<open>background.js\<close> reacts to two host events. Every host
  query and command is asynchronous and may be rejected; between two of them the host
  (and other handlers) may change anything. The embedding therefore threads an
  abstract host state \<open>'h\<close> through every call, lets the host answer each call
  as it likes, and keeps the list of calls issued so far.

  A tab snapshot as the host hands it out. \<open>groupId\<close> and \<open>openerTabId\<close> may be
  absent (\<^verbatim>\<open>typeof x === "number"\<close> is tested before use); \<open>index\<close> is the
  zero-based position in the window.
\<close>

record tab =
  tab_id :: int
  windowId :: int
  groupId :: "int option"
  index :: nat
  openerTabId :: "int option"

text \<open>A rejected promise of the host API.\<close>

datatype host_error = Rejected

text \<open>
  The host interface consumed by the script: \<^verbatim>\<open>browser.tabGroups.TAB_GROUP_ID_NONE\<close>
  (absent on a host without tab groups), \<^verbatim>\<open>tabs.get\<close>, \<^verbatim>\<open>tabs.query\<close>
  by window and optional group, \<^verbatim>\<open>tabs.move\<close> (tab, window, index),
  \<^verbatim>\<open>tabs.ungroup\<close> (absent when the host lacks the capability),
  \<^verbatim>\<open>windows.create\<close> (the new window's id), \<^verbatim>\<open>windows.remove\<close>, and the
  passing of time in \<^verbatim>\<open>setTimeout\<close>.
\<close>

record 'h host =
  tabGroups_NONE :: "int option"
  tabs_get :: "int \<Rightarrow> 'h \<Rightarrow> (host_error + tab) \<times> 'h"
  tabs_query :: "int \<Rightarrow> int option \<Rightarrow> 'h \<Rightarrow> (host_error + tab list) \<times> 'h"
  tabs_move :: "int \<Rightarrow> int \<Rightarrow> int \<Rightarrow> 'h \<Rightarrow> (host_error + unit) \<times> 'h"
  tabs_ungroup :: "(int list \<Rightarrow> 'h \<Rightarrow> (host_error + unit) \<times> 'h) option"
  windows_create :: "'h \<Rightarrow> (host_error + int) \<times> 'h"
  windows_remove :: "int \<Rightarrow> 'h \<Rightarrow> (host_error + unit) \<times> 'h"
  setTimeout :: "nat \<Rightarrow> 'h \<Rightarrow> 'h"

text \<open>The calls the script issues, in the order issued.\<close>

datatype call =
    TabsGet int
  | TabsQuery int "int option"
  | TabsMove int int int
  | TabsUngroup "int list"
  | WindowsCreate
  | WindowsRemove int
  | Wait nat

type_synonym 'h world = "'h \<times> call list"

definition call_get :: "'h host \<Rightarrow> int \<Rightarrow> 'h world \<Rightarrow> (host_error + tab) \<times> 'h world" where
  "call_get H i s =
     (case tabs_get H i (fst s) of (r, h) \<Rightarrow> (r, (h, snd s @ [TabsGet i])))"

definition call_query ::
  "'h host \<Rightarrow> int \<Rightarrow> int option \<Rightarrow> 'h world \<Rightarrow> (host_error + tab list) \<times> 'h world" where
  "call_query H w g s =
     (case tabs_query H w g (fst s) of (r, h) \<Rightarrow> (r, (h, snd s @ [TabsQuery w g])))"

definition call_move ::
  "'h host \<Rightarrow> int \<Rightarrow> int \<Rightarrow> int \<Rightarrow> 'h world \<Rightarrow> (host_error + unit) \<times> 'h world" where
  "call_move H i w k s =
     (case tabs_move H i w k (fst s) of (r, h) \<Rightarrow> (r, (h, snd s @ [TabsMove i w k])))"

definition call_ungroup ::
  "(int list \<Rightarrow> 'h \<Rightarrow> (host_error + unit) \<times> 'h) \<Rightarrow> int list \<Rightarrow> 'h world \<Rightarrow>
     (host_error + unit) \<times> 'h world" where
  "call_ungroup u ids s =
     (case u ids (fst s) of (r, h) \<Rightarrow> (r, (h, snd s @ [TabsUngroup ids])))"

definition call_create :: "'h host \<Rightarrow> 'h world \<Rightarrow> (host_error + int) \<times> 'h world" where
  "call_create H s =
     (case windows_create H (fst s) of (r, h) \<Rightarrow> (r, (h, snd s @ [WindowsCreate])))"

definition call_remove :: "'h host \<Rightarrow> int \<Rightarrow> 'h world \<Rightarrow> (host_error + unit) \<times> 'h world" where
  "call_remove H w s =
     (case windows_remove H w (fst s) of (r, h) \<Rightarrow> (r, (h, snd s @ [WindowsRemove w])))"

definition wait :: "'h host \<Rightarrow> nat \<Rightarrow> 'h world \<Rightarrow> 'h world" where
  "wait H ms s = (setTimeout H ms (fst s), snd s @ [Wait ms])"

definition STABILIZE_MS :: nat where
  "STABILIZE_MS = 25"

definition TAB_GROUP_ID_NONE :: "'h host \<Rightarrow> int" where
  "TAB_GROUP_ID_NONE H = (case tabGroups_NONE H of Some n \<Rightarrow> n | None \<Rightarrow> - 1)"

definition isGrouped :: "'h host \<Rightarrow> tab \<Rightarrow> bool" where
  "isGrouped H t = (case groupId t of None \<Rightarrow> False | Some g \<Rightarrow> g \<noteq> TAB_GROUP_ID_NONE H)"

section \<open>Active-tab history\<close>

text \<open>
  \<^verbatim>\<open>lastTwoActiveByWindow\<close>: per window the record \<open>{current, previous}\<close>, both
  fields undefined in a fresh record. The listener of \<^verbatim>\<open>tabs.onActivated\<close>
  returns the updated map.
\<close>

record active_rec =
  current :: "int option"
  previous :: "int option"

type_synonym history = "int \<Rightarrow> active_rec option"

definition lookup_rec :: "history \<Rightarrow> int \<Rightarrow> active_rec" where
  "lookup_rec m w =
     (case m w of Some r \<Rightarrow> r | None \<Rightarrow> \<lparr>current = None, previous = None\<rparr>)"

definition onActivated :: "history \<Rightarrow> int \<Rightarrow> int \<Rightarrow> history" where
  "onActivated m tabId w =
     (let r = lookup_rec m w in
      if current r \<noteq> Some tabId
      then m(w \<mapsto> r\<lparr>previous := current r, current := Some tabId\<rparr>)
      else m)"

text \<open>The map after a sequence of activation events \<open>(tabId, windowId)\<close>, from the empty map.\<close>

fun replay :: "history \<Rightarrow> (int \<times> int) list \<Rightarrow> history" where
  "replay m [] = m"
| "replay m (ev # evs) = replay (onActivated m (fst ev) (snd ev)) evs"

definition rec_ok :: "active_rec \<Rightarrow> bool" where
  "rec_ok r =
     (case current r of
        None \<Rightarrow> True
      | Some c \<Rightarrow> (case previous r of None \<Rightarrow> True | Some p \<Rightarrow> c \<noteq> p))"

section \<open>Opener resolver\<close>

text \<open>
  \<^verbatim>\<open>try { return await browser.tabs.get(id); } catch {}\<close>: the fetched tab, or
  nothing when the host rejects.
\<close>

definition try_get :: "'h host \<Rightarrow> int \<Rightarrow> 'h world \<Rightarrow> tab option \<times> 'h world" where
  "try_get H i s =
     (case call_get H i s of (Inr t, s1) \<Rightarrow> (Some t, s1) | (Inl e, s1) \<Rightarrow> (None, s1))"

definition candidateId :: "history \<Rightarrow> tab \<Rightarrow> int option" where
  "candidateId m newTab =
     (case m (windowId newTab) of
        None \<Rightarrow> None
      | Some r \<Rightarrow>
          (case current r of
             None \<Rightarrow> None
           | Some c \<Rightarrow> if c = tab_id newTab then previous r else Some c))"

definition getOpenerForNewTab ::
  "'h host \<Rightarrow> history \<Rightarrow> tab \<Rightarrow> 'h world \<Rightarrow> tab option \<times> 'h world" where
  "getOpenerForNewTab H m newTab s =
     (case (case openerTabId newTab of
              Some oid \<Rightarrow> try_get H oid s
            | None \<Rightarrow> (None, s)) of
        (Some t, s1) \<Rightarrow> (Some t, s1)
      | (None, s1) \<Rightarrow>
          (case candidateId m newTab of
             Some cid \<Rightarrow> try_get H cid s1
           | None \<Rightarrow> (None, s1)))"

section \<open>Group boundary\<close>

text \<open>The loop \<^verbatim>\<open>for (const t of groupTabs) if (t.index > end) end = t.index\<close>.\<close>

fun lastIndex_loop :: "int \<Rightarrow> tab list \<Rightarrow> int" where
  "lastIndex_loop e [] = e"
| "lastIndex_loop e (t # ts) =
     lastIndex_loop (if int (index t) > e then int (index t) else e) ts"

definition lastIndexOfGroup ::
  "'h host \<Rightarrow> int \<Rightarrow> int \<Rightarrow> 'h world \<Rightarrow> (host_error + int) \<times> 'h world" where
  "lastIndexOfGroup H g w s =
     (case call_query H w (Some g) s of
        (Inl e, s1) \<Rightarrow> (Inl e, s1)
      | (Inr groupTabs, s1) \<Rightarrow> (Inr (lastIndex_loop (- 1) groupTabs), s1))"

section \<open>Tab relocator\<close>

text \<open>
  The fallback of \<^verbatim>\<open>ensureUngrouped\<close>: one \<^verbatim>\<open>try\<close> block around the creation
  of the auxiliary window and the two moves, an inner one around its removal.
\<close>

definition window_hop :: "'h host \<Rightarrow> int \<Rightarrow> int \<Rightarrow> 'h world \<Rightarrow> 'h world" where
  "window_hop H tabId w s =
     (case call_create H s of
        (Inl e, s1) \<Rightarrow> s1
      | (Inr tmpId, s1) \<Rightarrow>
          (case call_move H tabId tmpId (- 1) s1 of
             (Inl e, s2) \<Rightarrow> s2
           | (Inr u, s2) \<Rightarrow>
               (case call_move H tabId w (- 1) s2 of
                  (Inl e, s3) \<Rightarrow> s3
                | (Inr u, s3) \<Rightarrow> snd (call_remove H tmpId s3))))"

definition ensureUngrouped :: "'h host \<Rightarrow> int \<Rightarrow> int \<Rightarrow> 'h world \<Rightarrow> 'h world" where
  "ensureUngrouped H tabId w s =
     (case tabs_ungroup H of
        None \<Rightarrow> window_hop H tabId w s
      | Some u \<Rightarrow>
          (case call_ungroup u [tabId] s of
             (Inr x, s1) \<Rightarrow> s1
           | (Inl e, s1) \<Rightarrow> window_hop H tabId w s1))"

section \<open>Placement orchestrator\<close>

text \<open>
  The \<^verbatim>\<open>catch\<close> block of the placement move (the "brief retry"): everything in it
  is swallowed.
\<close>

definition retry_move :: "'h host \<Rightarrow> int \<Rightarrow> int \<Rightarrow> int \<Rightarrow> 'h world \<Rightarrow> 'h world" where
  "retry_move H newId w g s =
     (case lastIndexOfGroup H g w s of
        (Inl e, s1) \<Rightarrow> s1
      | (Inr end2, s1) \<Rightarrow>
          (case call_query H w None s1 of
             (Inl e, s2) \<Rightarrow> s2
           | (Inr all2, s2) \<Rightarrow>
               snd (call_move H newId w (min (int (length all2)) (end2 + 1)) s2)))"

text \<open>
  Steps 2 and 3 of \<^verbatim>\<open>moveDirectlyAfterGroup\<close>: the boundary after ungrouping,
  the window's tab count, the move, and the retry. The two queries of the first
  attempt stand outside every \<^verbatim>\<open>try\<close>: their rejection leaves the function.
\<close>

definition place_after_group ::
  "'h host \<Rightarrow> int \<Rightarrow> int \<Rightarrow> int \<Rightarrow> 'h world \<Rightarrow> (host_error + unit) \<times> 'h world" where
  "place_after_group H newId w g s =
     (case lastIndexOfGroup H g w s of
        (Inl e, s1) \<Rightarrow> (Inl e, s1)
      | (Inr end1, s1) \<Rightarrow>
          if end1 < 0 then (Inr (), s1)
          else
            (case call_query H w None s1 of
               (Inl e, s2) \<Rightarrow> (Inl e, s2)
             | (Inr allTabs, s2) \<Rightarrow>
                 (case call_move H newId w (min (int (length allTabs)) (end1 + 1)) s2 of
                    (Inr u, s3) \<Rightarrow> (Inr (), s3)
                  | (Inl e, s3) \<Rightarrow>
                      (Inr (), retry_move H newId w g (wait H STABILIZE_MS s3)))))"

text \<open>
  \<^verbatim>\<open>moveDirectlyAfterGroup(newTab, opener)\<close>, the version with the stabilization
  wait and the retry (the second copy of \<^verbatim>\<open>background.js\<close>, the one the
  specification describes). The window is the one of the opener snapshot passed in,
  the group the one of the freshly fetched opener.
\<close>

definition moveDirectlyAfterGroup ::
  "'h host \<Rightarrow> tab \<Rightarrow> tab \<Rightarrow> 'h world \<Rightarrow> (host_error + unit) \<times> 'h world" where
  "moveDirectlyAfterGroup H newTab opener s =
     (let w = windowId opener in
      case call_get H (tab_id opener) (wait H STABILIZE_MS s) of
        (Inl e, s1) \<Rightarrow> (Inr (), s1)
      | (Inr freshOpener, s1) \<Rightarrow>
          if \<not> isGrouped H freshOpener then (Inr (), s1)
          else
            (case groupId freshOpener of
               None \<Rightarrow> (Inr (), s1)
             | Some g \<Rightarrow>
                 (case (if windowId newTab \<noteq> w
                        then call_move H (tab_id newTab) w (- 1) s1
                        else (Inr (), s1)) of
                    (Inl e, s2) \<Rightarrow> (Inr (), s2)
                  | (Inr u, s2) \<Rightarrow>
                      place_after_group H (tab_id newTab) w g
                        (ensureUngrouped H (tab_id newTab) w s2))))"

text \<open>
  The first copy of \<^verbatim>\<open>background.js\<close> has the same function without the wait
  and without the retry; there the window is the one of the freshly fetched opener.
\<close>

definition place_after_group1 ::
  "'h host \<Rightarrow> int \<Rightarrow> int \<Rightarrow> int \<Rightarrow> 'h world \<Rightarrow> (host_error + unit) \<times> 'h world" where
  "place_after_group1 H newId w g s =
     (case lastIndexOfGroup H g w s of
        (Inl e, s1) \<Rightarrow> (Inl e, s1)
      | (Inr end1, s1) \<Rightarrow>
          if end1 < 0 then (Inr (), s1)
          else
            (case call_query H w None s1 of
               (Inl e, s2) \<Rightarrow> (Inl e, s2)
             | (Inr allTabs, s2) \<Rightarrow>
                 (Inr (),
                  snd (call_move H newId w (min (int (length allTabs)) (end1 + 1)) s2))))"

definition moveDirectlyAfterGroup1 ::
  "'h host \<Rightarrow> tab \<Rightarrow> tab \<Rightarrow> 'h world \<Rightarrow> (host_error + unit) \<times> 'h world" where
  "moveDirectlyAfterGroup1 H newTab opener s =
     (case call_get H (tab_id opener) s of
        (Inl e, s1) \<Rightarrow> (Inr (), s1)
      | (Inr fetchedOpener, s1) \<Rightarrow>
          if \<not> isGrouped H fetchedOpener then (Inr (), s1)
          else
            (case groupId fetchedOpener of
               None \<Rightarrow> (Inr (), s1)
             | Some g \<Rightarrow>
                 (let w = windowId fetchedOpener in
                  case (if windowId newTab \<noteq> w
                        then call_move H (tab_id newTab) w (- 1) s1
                        else (Inr (), s1)) of
                    (Inl e, s2) \<Rightarrow> (Inr (), s2)
                  | (Inr u, s2) \<Rightarrow>
                      place_after_group1 H (tab_id newTab) w g
                        (ensureUngrouped H (tab_id newTab) w s2))))"

text \<open>
  The listener of \<^verbatim>\<open>tabs.onCreated\<close>. \<open>Inl\<close> is a rejection leaving the handler.
\<close>

definition onCreated ::
  "'h host \<Rightarrow> history \<Rightarrow> tab option \<Rightarrow> 'h world \<Rightarrow> (host_error + unit) \<times> 'h world" where
  "onCreated H m tabOpt s =
     (case tabOpt of
        None \<Rightarrow> (Inr (), s)
      | Some t \<Rightarrow>
          (case getOpenerForNewTab H m t s of
             (None, s1) \<Rightarrow> (Inr (), s1)
           | (Some opener, s1) \<Rightarrow>
               if \<not> isGrouped H opener then (Inr (), s1)
               else moveDirectlyAfterGroup H t opener s1))"

definition onCreated1 ::
  "'h host \<Rightarrow> history \<Rightarrow> tab option \<Rightarrow> 'h world \<Rightarrow> (host_error + unit) \<times> 'h world" where
  "onCreated1 H m tabOpt s =
     (case tabOpt of
        None \<Rightarrow> (Inr (), s)
      | Some t \<Rightarrow>
          (case getOpenerForNewTab H m t s of
             (None, s1) \<Rightarrow> (Inr (), s1)
           | (Some opener, s1) \<Rightarrow>
               if \<not> isGrouped H opener then (Inr (), s1)
               else moveDirectlyAfterGroup1 H t opener s1))"

section \<open>Hosts\<close>

text \<open>A call that only reads or waits: it commands nothing.\<close>

definition is_read :: "call \<Rightarrow> bool" where
  "is_read c = (case c of TabsGet i \<Rightarrow> True | Wait n \<Rightarrow> True | _ \<Rightarrow> False)"

definition is_move :: "call \<Rightarrow> bool" where
  "is_move c = (case c of TabsMove i w k \<Rightarrow> True | _ \<Rightarrow> False)"

text \<open>
  A host whose \<^verbatim>\<open>tabs.get\<close> and timer leave its state alone (no other
  handler runs in between).
\<close>

definition quiet_reads :: "'h host \<Rightarrow> bool" where
  "quiet_reads H =
     ((\<forall>i x. snd (tabs_get H i x) = x) \<and> (\<forall>n x. setTimeout H n x = x))"

text \<open>
  A host that answers from a script, one reply per call, whatever is asked; a reply of
  the wrong kind, \<open>RFail\<close> or an exhausted script is a rejection. It stands for any
  pattern of host answers and failures. The flag says whether \<^verbatim>\<open>tabs.ungroup\<close>
  exists.
\<close>

datatype reply = RTab tab | RTabs "tab list" | RWin int | ROk | RFail

fun reply_tab :: "reply list \<Rightarrow> (host_error + tab) \<times> reply list" where
  "reply_tab (RTab t # rs) = (Inr t, rs)"
| "reply_tab (r # rs) = (Inl Rejected, rs)"
| "reply_tab [] = (Inl Rejected, [])"

fun reply_tabs :: "reply list \<Rightarrow> (host_error + tab list) \<times> reply list" where
  "reply_tabs (RTabs ts # rs) = (Inr ts, rs)"
| "reply_tabs (r # rs) = (Inl Rejected, rs)"
| "reply_tabs [] = (Inl Rejected, [])"

fun reply_win :: "reply list \<Rightarrow> (host_error + int) \<times> reply list" where
  "reply_win (RWin w # rs) = (Inr w, rs)"
| "reply_win (r # rs) = (Inl Rejected, rs)"
| "reply_win [] = (Inl Rejected, [])"

fun reply_ok :: "reply list \<Rightarrow> (host_error + unit) \<times> reply list" where
  "reply_ok (ROk # rs) = (Inr (), rs)"
| "reply_ok (r # rs) = (Inl Rejected, rs)"
| "reply_ok [] = (Inl Rejected, [])"

definition scripted :: "bool \<Rightarrow> reply list host" where
  "scripted native =
     \<lparr>tabGroups_NONE = Some (- 1),
      tabs_get = (\<lambda>i. reply_tab),
      tabs_query = (\<lambda>w g. reply_tabs),
      tabs_move = (\<lambda>i w k. reply_ok),
      tabs_ungroup = (if native then Some (\<lambda>ids. reply_ok) else None),
      windows_create = reply_win,
      windows_remove = (\<lambda>w. reply_ok),
      setTimeout = (\<lambda>ms rs. rs)\<rparr>"

text \<open>
  Modelled from the spec: the host platform itself (the browser's tabs and windows
  API), which is no code of this repository. The specification's data model gives
  windows that own an ordered sequence of tabs, the index of a tab being its position
  (dense by construction), and a group being the tabs of a window that carry its id;
  \<open>MoveTo\<close> puts the tab at the given index of the given window, clamped to the
  window's tab count, index \<open>-1\<close> being the tail; crossing windows drops the group
  membership; ungrouping sets the group id to the sentinel \<open>-1\<close>. A call on a tab
  or window that does not exist is rejected. Nothing else happens while a handler
  waits.
\<close>

record stab =
  sid :: int
  sgroup :: int
  sopener :: "int option"

type_synonym browser = "(int \<times> stab list) list"

definition snapshot :: "int \<Rightarrow> nat \<Rightarrow> stab \<Rightarrow> tab" where
  "snapshot w i x =
     \<lparr>tab_id = sid x, windowId = w, groupId = Some (sgroup x), index = i,
      openerTabId = sopener x\<rparr>"

fun window_tabs :: "int \<Rightarrow> nat \<Rightarrow> stab list \<Rightarrow> tab list" where
  "window_tabs w i [] = []"
| "window_tabs w i (x # xs) = snapshot w i x # window_tabs w (Suc i) xs"

fun all_tabs :: "browser \<Rightarrow> tab list" where
  "all_tabs [] = []"
| "all_tabs (p # b) = window_tabs (fst p) 0 (snd p) @ all_tabs b"

fun find_stab :: "int \<Rightarrow> browser \<Rightarrow> (int \<times> stab) option" where
  "find_stab i [] = None"
| "find_stab i (p # b) =
     (case find (\<lambda>x. sid x = i) (snd p) of
        Some x \<Rightarrow> Some (fst p, x)
      | None \<Rightarrow> find_stab i b)"

definition insert_at :: "int \<Rightarrow> stab \<Rightarrow> stab list \<Rightarrow> stab list" where
  "insert_at k x ys = (if k < 0 then ys @ [x] else take (nat k) ys @ x # drop (nat k) ys)"

definition relocate :: "int \<Rightarrow> int \<Rightarrow> int \<Rightarrow> stab \<Rightarrow> int \<times> stab list \<Rightarrow> int \<times> stab list" where
  "relocate i w k x p =
     (let ys = filter (\<lambda>y. sid y \<noteq> i) (snd p)
      in (fst p, if fst p = w then insert_at k x ys else ys))"

definition ref_get :: "int \<Rightarrow> browser \<Rightarrow> (host_error + tab) \<times> browser" where
  "ref_get i b =
     (case find (\<lambda>t. tab_id t = i) (all_tabs b) of
        None \<Rightarrow> (Inl Rejected, b)
      | Some t \<Rightarrow> (Inr t, b))"

definition ref_query :: "int \<Rightarrow> int option \<Rightarrow> browser \<Rightarrow> (host_error + tab list) \<times> browser" where
  "ref_query w g b =
     (Inr (filter (\<lambda>t. windowId t = w \<and> (case g of None \<Rightarrow> True | Some k \<Rightarrow> groupId t = Some k))
             (all_tabs b)), b)"

definition ref_move :: "int \<Rightarrow> int \<Rightarrow> int \<Rightarrow> browser \<Rightarrow> (host_error + unit) \<times> browser" where
  "ref_move i w k b =
     (case find_stab i b of
        None \<Rightarrow> (Inl Rejected, b)
      | Some (v, x) \<Rightarrow>
          if w \<in> set (map fst b)
          then (Inr (), map (relocate i w k (if v = w then x else x\<lparr>sgroup := - 1\<rparr>)) b)
          else (Inl Rejected, b))"

definition ungroup_in :: "int list \<Rightarrow> int \<times> stab list \<Rightarrow> int \<times> stab list" where
  "ungroup_in ids p =
     (fst p, map (\<lambda>x. if sid x \<in> set ids then x\<lparr>sgroup := - 1\<rparr> else x) (snd p))"

definition ref_ungroup :: "int list \<Rightarrow> browser \<Rightarrow> (host_error + unit) \<times> browser" where
  "ref_ungroup ids b =
     (if list_all (\<lambda>i. find_stab i b \<noteq> None) ids
      then (Inr (), map (ungroup_in ids) b)
      else (Inl Rejected, b))"

definition fresh_window :: "browser \<Rightarrow> int" where
  "fresh_window b = 1 + fold max (map fst b) 0"

definition ref_create :: "browser \<Rightarrow> (host_error + int) \<times> browser" where
  "ref_create b = (Inr (fresh_window b), b @ [(fresh_window b, [])])"

definition ref_remove :: "int \<Rightarrow> browser \<Rightarrow> (host_error + unit) \<times> browser" where
  "ref_remove w b =
     (if w \<in> set (map fst b)
      then (Inr (), filter (\<lambda>p. fst p \<noteq> w) b)
      else (Inl Rejected, b))"

definition reference_host :: "bool \<Rightarrow> browser host" where
  "reference_host native =
     \<lparr>tabGroups_NONE = Some (- 1),
      tabs_get = ref_get,
      tabs_query = ref_query,
      tabs_move = ref_move,
      tabs_ungroup = (if native then Some ref_ungroup else None),
      windows_create = ref_create,
      windows_remove = ref_remove,
      setTimeout = (\<lambda>ms b. b)\<rparr>"

section \<open>Auxiliary predicates and example states\<close>

text \<open>
  The explicit opener reference gave nothing: it is absent, or its fetch was rejected;
  \<open>s1\<close> is the world after that.
\<close>

definition no_explicit :: "'h host \<Rightarrow> tab \<Rightarrow> 'h world \<Rightarrow> 'h world \<Rightarrow> bool" where
  "no_explicit H n s s1 =
     (case openerTabId n of
        None \<Rightarrow> s1 = s
      | Some oid \<Rightarrow> call_get H oid s = (Inl Rejected, s1))"

text \<open>
  Scenario 1 of the specification: window 1 holds four tabs, those at indices 1 and 2
  in group 5; tab 13 has just been opened from tab 10 and sits at the tail, inside the
  opener's group.
\<close>

definition scenario1 :: browser where
  "scenario1 =
     [(1, [\<lparr>sid = 9, sgroup = - 1, sopener = None\<rparr>,
           \<lparr>sid = 10, sgroup = 5, sopener = None\<rparr>,
           \<lparr>sid = 11, sgroup = 5, sopener = None\<rparr>,
           \<lparr>sid = 12, sgroup = - 1, sopener = None\<rparr>,
           \<lparr>sid = 13, sgroup = 5, sopener = Some 10\<rparr>])]"

definition tab7 :: tab where
  "tab7 = \<lparr>tab_id = 7, windowId = 1, groupId = Some 5, index = 0, openerTabId = None\<rparr>"

definition tab10 :: tab where
  "tab10 = \<lparr>tab_id = 10, windowId = 1, groupId = Some 5, index = 1, openerTabId = None\<rparr>"

definition tab13 :: tab where
  "tab13 = \<lparr>tab_id = 13, windowId = 1, groupId = Some 5, index = 4, openerTabId = Some 10\<rparr>"

definition history0 :: history where
  "history0 = Map.empty(1 \<mapsto> \<lparr>current = Some 7, previous = Some 5\<rparr>)"

definition history1 :: history where
  "history1 = Map.empty(1 \<mapsto> \<lparr>current = Some 13, previous = Some 10\<rparr>)"

definition tab20 :: tab where
  "tab20 = \<lparr>tab_id = 20, windowId = 1, groupId = Some 5, index = 2, openerTabId = Some 10\<rparr>"

text \<open>
  Scenario 2 of the specification: the same window, and tab 14 opened from the
  ungrouped tab 12.
\<close>

definition scenario2 :: browser where
  "scenario2 =
     [(1, [\<lparr>sid = 9, sgroup = - 1, sopener = None\<rparr>,
           \<lparr>sid = 10, sgroup = 5, sopener = None\<rparr>,
           \<lparr>sid = 11, sgroup = 5, sopener = None\<rparr>,
           \<lparr>sid = 12, sgroup = - 1, sopener = None\<rparr>,
           \<lparr>sid = 14, sgroup = - 1, sopener = Some 12\<rparr>])]"

definition tab14 :: tab where
  "tab14 = \<lparr>tab_id = 14, windowId = 1, groupId = Some (- 1), index = 4, openerTabId = Some 12\<rparr>"

text \<open>Scenario 1 after tab 13 has been ungrouped, and after it has been placed.\<close>

definition scenario1_ungrouped :: browser where
  "scenario1_ungrouped =
     [(1, [\<lparr>sid = 9, sgroup = - 1, sopener = None\<rparr>,
           \<lparr>sid = 10, sgroup = 5, sopener = None\<rparr>,
           \<lparr>sid = 11, sgroup = 5, sopener = None\<rparr>,
           \<lparr>sid = 12, sgroup = - 1, sopener = None\<rparr>,
           \<lparr>sid = 13, sgroup = - 1, sopener = Some 10\<rparr>])]"

definition scenario1_placed :: browser where
  "scenario1_placed =
     [(1, [\<lparr>sid = 9, sgroup = - 1, sopener = None\<rparr>,
           \<lparr>sid = 10, sgroup = 5, sopener = None\<rparr>,
           \<lparr>sid = 11, sgroup = 5, sopener = None\<rparr>,
           \<lparr>sid = 13, sgroup = - 1, sopener = Some 10\<rparr>,
           \<lparr>sid = 12, sgroup = - 1, sopener = None\<rparr>])]"

text \<open>
  A run in which the first placement move is rejected and, while the handler waits,
  the opener's group is dissolved: window 1 held tabs 7 and 10 (group 5) and the new
  tab 20; at the retry only tab 20 is left.
\<close>

definition retry_script :: "reply list" where
  "retry_script =
     [RTab tab10, RTab tab10, ROk,
      RTabs [tab7, tab10], RTabs [tab7, tab10, tab20\<lparr>groupId := Some (- 1)\<rparr>], RFail,
      RTabs [], RTabs [tab20\<lparr>groupId := Some (- 1), index := 0\<rparr>], ROk]"

text \<open>Every stored tab with id \<open>i\<close> is ungrouped.\<close>

definition ungrouped_in :: "int \<Rightarrow> browser \<Rightarrow> bool" where
  "ungrouped_in i b =
     list_all (\<lambda>p. list_all (\<lambda>y. sid y = i \<longrightarrow> sgroup y = - 1) (snd p)) b"

text \<open>A window without the tab \<open>i\<close>.\<close>

definition without :: "int \<Rightarrow> int \<times> stab list \<Rightarrow> int \<times> stab list" where
  "without i p = (fst p, filter (\<lambda>y. sid y \<noteq> i) (snd p))"

text \<open>
  A tab created at the front of the window while the grouped tab 10 is the active one
  (another extension calling \<^verbatim>\<open>tabs.create({index: 0})\<close>, say): the new tab 20
  carries no opener reference and no group. In \<open>front3\<close> the group reaches the end of
  the window, in \<open>front4\<close> the ungrouped tab 12 follows it.
\<close>

definition front3 :: browser where
  "front3 =
     [(1, [\<lparr>sid = 20, sgroup = - 1, sopener = None\<rparr>,
           \<lparr>sid = 7, sgroup = 5, sopener = None\<rparr>,
           \<lparr>sid = 10, sgroup = 5, sopener = None\<rparr>])]"

definition front4 :: browser where
  "front4 =
     [(1, [\<lparr>sid = 20, sgroup = - 1, sopener = None\<rparr>,
           \<lparr>sid = 7, sgroup = 5, sopener = None\<rparr>,
           \<lparr>sid = 10, sgroup = 5, sopener = None\<rparr>,
           \<lparr>sid = 12, sgroup = - 1, sopener = None\<rparr>])]"

definition new_front :: tab where
  "new_front =
     \<lparr>tab_id = 20, windowId = 1, groupId = Some (- 1), index = 0, openerTabId = None\<rparr>"

definition history2 :: history where
  "history2 = Map.empty(1 \<mapsto> \<lparr>current = Some 10, previous = Some 7\<rparr>)"

section \<open>The history invariant\<close>

lemma rec_ok_update: "rec_ok (r\<lparr>previous := current r, current := Some t\<rparr>) = (current r \<noteq> Some t)"
  by (cases "current r") (auto simp: rec_ok_def)

lemma onActivated_preserves:
  assumes "\<forall>v r. m v = Some r \<longrightarrow> rec_ok r"
  shows "\<forall>v r. onActivated m t w v = Some r \<longrightarrow> rec_ok r"
  using assms by (auto simp: onActivated_def Let_def rec_ok_update split: if_splits)

lemma replay_preserves:
  "\<forall>v r. m v = Some r \<longrightarrow> rec_ok r \<Longrightarrow> \<forall>v r. replay m evs v = Some r \<longrightarrow> rec_ok r"
proof (induction evs arbitrary: m)
  case Nil
  then show ?case by simp
next
  case (Cons ev evs)
  have "\<forall>v r. onActivated m (fst ev) (snd ev) v = Some r \<longrightarrow> rec_ok r"
    using Cons.prems by (rule onActivated_preserves)
  then show ?case using Cons.IH by simp
qed

text \<open>
  Claim C8. The activation listener changes a window's record only when the activated
  tab differs from \<open>current\<close>; it then shifts \<open>current\<close> into \<open>previous\<close> and
  stores the new id. Hence \<open>current\<close> and \<open>previous\<close> differ once both are set:
  every activation event preserves this, and it holds after every sequence of events
  from the empty map.
\<close>

theorem onActivated_history:
  "(current (lookup_rec m w) = Some t \<longrightarrow> onActivated m t w = m) \<and>
   (current (lookup_rec m w) \<noteq> Some t \<longrightarrow>
      onActivated m t w =
        m(w \<mapsto> \<lparr>current = Some t, previous = current (lookup_rec m w)\<rparr>)) \<and>
   ((\<forall>v r. m v = Some r \<longrightarrow> rec_ok r) \<longrightarrow>
      (\<forall>v r. onActivated m t w v = Some r \<longrightarrow> rec_ok r)) \<and>
   (\<forall>v r. replay Map.empty evs v = Some r \<longrightarrow> rec_ok r)"
proof -
  have a: "current (lookup_rec m w) = Some t \<longrightarrow> onActivated m t w = m"
    by (simp add: onActivated_def)
  have b: "current (lookup_rec m w) \<noteq> Some t \<longrightarrow>
      onActivated m t w = m(w \<mapsto> \<lparr>current = Some t, previous = current (lookup_rec m w)\<rparr>)"
    by (cases "lookup_rec m w") (simp add: onActivated_def Let_def)
  have c: "(\<forall>v r. m v = Some r \<longrightarrow> rec_ok r) \<longrightarrow>
      (\<forall>v r. onActivated m t w v = Some r \<longrightarrow> rec_ok r)"
    using onActivated_preserves by blast
  have d: "\<forall>v r. replay Map.empty evs v = Some r \<longrightarrow> rec_ok r"
    by (rule replay_preserves) simp
  from a b c d show ?thesis by blast
qed

theorem onActivated_history_witness:
  "onActivated history0 9 1 1 = Some \<lparr>current = Some 9, previous = Some 7\<rparr> \<and>
   onActivated history0 7 1 = history0 \<and>
   rec_ok \<lparr>current = Some 9, previous = Some 7\<rparr> \<and>
   (\<exists>r. replay Map.empty [(5, 1), (7, 1), (7, 1)] 1 = Some r \<and> rec_ok r)"
proof -
  have inv: "\<forall>v r. history0 v = Some r \<longrightarrow> rec_ok r"
    by (simp add: history0_def rec_ok_def)
  have cur: "current (lookup_rec history0 1) = Some 7"
    by (simp add: history0_def lookup_rec_def)
  have new: "onActivated history0 9 1 = history0(1 \<mapsto> \<lparr>current = Some 9, previous = Some 7\<rparr>)"
    using onActivated_history [of history0 1 9 "[]"] cur by simp
  have same: "onActivated history0 7 1 = history0"
    using onActivated_history [of history0 1 7 "[]"] cur by simp
  have pres: "\<forall>v r. onActivated history0 9 1 v = Some r \<longrightarrow> rec_ok r"
    using onActivated_history [of history0 1 9 "[]"] inv by blast
  have ok: "rec_ok \<lparr>current = Some 9, previous = Some 7\<rparr>"
    using pres [rule_format, of 1 "\<lparr>current = Some 9, previous = Some 7\<rparr>"] new by simp
  have "replay Map.empty [(5, 1), (7, 1), (7, 1)] 1 = Some \<lparr>current = Some 7, previous = Some 5\<rparr>"
    by (simp add: onActivated_def lookup_rec_def Let_def)
  then have "\<exists>r. replay Map.empty [(5, 1), (7, 1), (7, 1)] 1 = Some r \<and> rec_ok r"
    using onActivated_history [of history0 1 9 "[(5, 1), (7, 1), (7, 1)]"] by blast
  with new same ok show ?thesis by simp
qed

section \<open>The group boundary\<close>

lemma lastIndex_loop_fold:
  "lastIndex_loop e ts = fold max (map (\<lambda>t. int (index t)) ts) e"
  by (induction ts arbitrary: e) (simp_all add: max_def)

lemma lastIndex_loop_Max:
  "lastIndex_loop e ts = Max (set (e # map (\<lambda>t. int (index t)) ts))"
  by (simp only: lastIndex_loop_fold Max.set_eq_fold)

lemma lastIndex_loop_value:
  "lastIndex_loop (- 1) ts = (if ts = [] then - 1 else Max (set (map (\<lambda>t. int (index t)) ts)))"
proof (cases ts)
  case Nil
  then show ?thesis by simp
next
  case (Cons a list)
  let ?S = "set (map (\<lambda>t. int (index t)) ts)"
  have ne: "?S \<noteq> {}" and fin: "finite ?S" using Cons by simp_all
  have "int (index a) \<in> ?S" using Cons by simp
  then have "0 \<le> Max ?S" using fin by (meson Max_ge of_nat_0_le_iff order_trans)
  then have "Max (insert (- 1) ?S) = Max ?S"
    using ne fin by (simp add: max_def)
  then show ?thesis using Cons by (simp only: lastIndex_loop_Max list.set) simp
qed

lemma lastIndex_loop_set:
  assumes "set ts' = set ts"
  shows "lastIndex_loop (- 1) ts' = lastIndex_loop (- 1) ts"
proof -
  have "(ts' = []) = (ts = [])" using assms by (metis set_empty)
  then show ?thesis using assms by (simp add: lastIndex_loop_value)
qed

text \<open>
  Claim C4. The boundary calculator queries the tabs of the given group in the given
  window and returns the largest index among the tabs the host reports, \<open>-1\<close> when
  it reports none; the result depends only on the set of reported tabs, not on their
  order.
\<close>

theorem lastIndexOfGroup_is_max:
  assumes "tabs_query H w (Some g) h = (Inr ts, h')"
  shows "lastIndexOfGroup H g w (h, log) =
           (Inr (if ts = [] then - 1 else Max (set (map (\<lambda>t. int (index t)) ts))),
            (h', log @ [TabsQuery w (Some g)])) \<and>
         (\<forall>ts'. set ts' = set ts \<longrightarrow> lastIndex_loop (- 1) ts' = lastIndex_loop (- 1) ts)"
proof -
  have "lastIndexOfGroup H g w (h, log) =
           (Inr (if ts = [] then - 1 else Max (set (map (\<lambda>t. int (index t)) ts))),
            (h', log @ [TabsQuery w (Some g)]))"
    using assms by (simp add: lastIndexOfGroup_def call_query_def lastIndex_loop_value)
  moreover have "\<forall>ts'. set ts' = set ts \<longrightarrow> lastIndex_loop (- 1) ts' = lastIndex_loop (- 1) ts"
    using lastIndex_loop_set by blast
  ultimately show ?thesis by blast
qed


theorem lastIndexOfGroup_is_max_witness:
  "tabs_query (reference_host True) 1 (Some 5) scenario1 =
     (Inr [snapshot 1 1 \<lparr>sid = 10, sgroup = 5, sopener = None\<rparr>,
           snapshot 1 2 \<lparr>sid = 11, sgroup = 5, sopener = None\<rparr>,
           snapshot 1 4 \<lparr>sid = 13, sgroup = 5, sopener = Some 10\<rparr>], scenario1) \<and>
   lastIndexOfGroup (reference_host True) 5 1 (scenario1, []) =
     (Inr 4, (scenario1, [TabsQuery 1 (Some 5)])) \<and>
   lastIndex_loop (- 1) [tab13, tab7, tab10] = lastIndex_loop (- 1) [tab10, tab13, tab7]"
proof -
  have q: "tabs_query (reference_host True) 1 (Some 5) scenario1 =
     (Inr [snapshot 1 1 \<lparr>sid = 10, sgroup = 5, sopener = None\<rparr>,
           snapshot 1 2 \<lparr>sid = 11, sgroup = 5, sopener = None\<rparr>,
           snapshot 1 4 \<lparr>sid = 13, sgroup = 5, sopener = Some 10\<rparr>], scenario1)"
    by (simp add: reference_host_def ref_query_def scenario1_def snapshot_def)
  have a: "lastIndexOfGroup (reference_host True) 5 1 (scenario1, []) =
     (Inr 4, (scenario1, [TabsQuery 1 (Some 5)]))"
    using lastIndexOfGroup_is_max [OF q, of "[]"] by (simp add: snapshot_def)
  have s: "set [tab13, tab7, tab10] = set [tab10, tab13, tab7]" by auto
  have p: "tabs_query (scripted True) 1 (Some 5) [RTabs [tab10, tab13, tab7]] =
             (Inr [tab10, tab13, tab7], [])"
    by (simp add: scripted_def)
  have b: "lastIndex_loop (- 1) [tab13, tab7, tab10] = lastIndex_loop (- 1) [tab10, tab13, tab7]"
    using lastIndexOfGroup_is_max [OF p, of "[]"] s by blast
  from q a b show ?thesis by blast
qed

section \<open>The opener resolver\<close>

lemma resolve_explicit:
  "openerTabId n = Some oid \<Longrightarrow> call_get H oid s = (Inr t, s1) \<Longrightarrow>
     getOpenerForNewTab H m n s = (Some t, s1)"
  by (simp add: getOpenerForNewTab_def try_get_def)

lemma resolve_history:
  assumes "no_explicit H n s s1"
  shows "getOpenerForNewTab H m n s =
       (case candidateId m n of Some cid \<Rightarrow> try_get H cid s1 | None \<Rightarrow> (None, s1))"
proof (cases "openerTabId n")
  case None
  then have "s1 = s" using assms by (simp add: no_explicit_def)
  then show ?thesis using None by (simp add: getOpenerForNewTab_def cong: option.case_cong)
next
  case (Some oid)
  then have "call_get H oid s = (Inl Rejected, s1)" using assms by (simp add: no_explicit_def)
  then show ?thesis using Some by (simp add: getOpenerForNewTab_def try_get_def)
qed

lemma candidateId_iff:
  "candidateId m n = Some c \<longleftrightarrow>
      (\<exists>r. m (windowId n) = Some r \<and>
           (if current r = Some (tab_id n) then previous r = Some c
            else current r = Some c))"
proof (cases "m (windowId n)")
  case None
  then show ?thesis by (simp add: candidateId_def)
next
  case (Some r)
  then show ?thesis by (cases "current r") (auto simp: candidateId_def)
qed

text \<open>
  Claim C3. The resolver returns the tab fetched through the explicit opener reference
  when that is present and fetched. Otherwise it takes the candidate from the window's
  history record, \<open>current\<close> when that is not the new tab's own id and \<open>previous\<close>
  when it is, and returns the candidate if its fetch succeeds; with no candidate, or a
  rejected fetch, it returns nothing.
\<close>

theorem getOpenerForNewTab_resolves:
  "(openerTabId n = Some oid \<and> call_get H oid s = (Inr t, s1) \<longrightarrow>
      getOpenerForNewTab H m n s = (Some t, s1)) \<and>
   (no_explicit H n s s1 \<and> m (windowId n) = Some r \<and> current r = Some c \<and> c \<noteq> tab_id n \<and>
    call_get H c s1 = (Inr t, s2) \<longrightarrow>
      getOpenerForNewTab H m n s = (Some t, s2)) \<and>
   (no_explicit H n s s1 \<and> m (windowId n) = Some r \<and> current r = Some (tab_id n) \<and>
    previous r = Some p \<and> call_get H p s1 = (Inr t, s2) \<longrightarrow>
      getOpenerForNewTab H m n s = (Some t, s2)) \<and>
   (no_explicit H n s s1 \<and> candidateId m n = Some c \<and> call_get H c s1 = (Inl e, s2) \<longrightarrow>
      getOpenerForNewTab H m n s = (None, s2)) \<and>
   (no_explicit H n s s1 \<and> candidateId m n = None \<longrightarrow>
      getOpenerForNewTab H m n s = (None, s1)) \<and>
   (candidateId m n = Some c \<longleftrightarrow>
      (\<exists>r. m (windowId n) = Some r \<and>
           (if current r = Some (tab_id n) then previous r = Some c
            else current r = Some c)))"
proof -
  have a: "openerTabId n = Some oid \<and> call_get H oid s = (Inr t, s1) \<longrightarrow>
      getOpenerForNewTab H m n s = (Some t, s1)"
    using resolve_explicit by blast
  have b: "no_explicit H n s s1 \<and> m (windowId n) = Some r \<and> current r = Some c \<and> c \<noteq> tab_id n \<and>
    call_get H c s1 = (Inr t, s2) \<longrightarrow> getOpenerForNewTab H m n s = (Some t, s2)"
  proof
    assume h: "no_explicit H n s s1 \<and> m (windowId n) = Some r \<and> current r = Some c \<and>
      c \<noteq> tab_id n \<and> call_get H c s1 = (Inr t, s2)"
    then have "candidateId m n = Some c" by (simp add: candidateId_def)
    then show "getOpenerForNewTab H m n s = (Some t, s2)"
      using h resolve_history [of H n s s1 m] by (simp add: try_get_def)
  qed
  have c: "no_explicit H n s s1 \<and> m (windowId n) = Some r \<and> current r = Some (tab_id n) \<and>
    previous r = Some p \<and> call_get H p s1 = (Inr t, s2) \<longrightarrow>
      getOpenerForNewTab H m n s = (Some t, s2)"
  proof
    assume h: "no_explicit H n s s1 \<and> m (windowId n) = Some r \<and> current r = Some (tab_id n) \<and>
      previous r = Some p \<and> call_get H p s1 = (Inr t, s2)"
    then have "candidateId m n = Some p" by (simp add: candidateId_def)
    then show "getOpenerForNewTab H m n s = (Some t, s2)"
      using h resolve_history [of H n s s1 m] by (simp add: try_get_def)
  qed
  have d: "no_explicit H n s s1 \<and> candidateId m n = Some c \<and> call_get H c s1 = (Inl e, s2) \<longrightarrow>
      getOpenerForNewTab H m n s = (None, s2)"
  proof
    assume h: "no_explicit H n s s1 \<and> candidateId m n = Some c \<and> call_get H c s1 = (Inl e, s2)"
    then show "getOpenerForNewTab H m n s = (None, s2)"
      using resolve_history [of H n s s1 m] by (simp add: try_get_def)
  qed
  have e: "no_explicit H n s s1 \<and> candidateId m n = None \<longrightarrow>
      getOpenerForNewTab H m n s = (None, s1)"
  proof
    assume h: "no_explicit H n s s1 \<and> candidateId m n = None"
    then show "getOpenerForNewTab H m n s = (None, s1)"
      using resolve_history [of H n s s1 m] by simp
  qed
  from a b c d e candidateId_iff [of m n c] show ?thesis by blast
qed


theorem getOpenerForNewTab_resolves_witness:
  "getOpenerForNewTab (scripted True) history0 tab13 ([RTab tab10], []) =
     (Some tab10, ([], [TabsGet 10])) \<and>
   getOpenerForNewTab (scripted True) history0 tab13 ([RFail, RTab tab7], []) =
     (Some tab7, ([], [TabsGet 10, TabsGet 7])) \<and>
   getOpenerForNewTab (scripted True) history1 (tab13\<lparr>openerTabId := None\<rparr>) ([RTab tab10], []) =
     (Some tab10, ([], [TabsGet 10])) \<and>
   getOpenerForNewTab (scripted True) history0 tab13 ([RFail, RFail], []) =
     (None, ([], [TabsGet 10, TabsGet 7])) \<and>
   getOpenerForNewTab (scripted True) Map.empty tab13 ([RFail], []) =
     (None, ([], [TabsGet 10])) \<and>
   candidateId history1 tab13 = Some 10"
proof -
  let ?H = "scripted True :: reply list host"
  have g1: "call_get ?H 10 ([RTab tab10], []) = (Inr tab10, ([], [TabsGet 10]))"
    by (simp add: call_get_def scripted_def)
  have a: "getOpenerForNewTab ?H history0 tab13 ([RTab tab10], []) =
     (Some tab10, ([], [TabsGet 10]))"
    using getOpenerForNewTab_resolves [of tab13 10 ?H "([RTab tab10], [])" tab10
        "([], [TabsGet 10])" history0] g1
    by (simp add: tab13_def)
  have ne: "no_explicit ?H tab13 ([RFail, RTab tab7], []) ([RTab tab7], [TabsGet 10])"
    by (simp add: no_explicit_def tab13_def call_get_def scripted_def)
  have g2: "call_get ?H 7 ([RTab tab7], [TabsGet 10]) = (Inr tab7, ([], [TabsGet 10, TabsGet 7]))"
    by (simp add: call_get_def scripted_def)
  have b: "getOpenerForNewTab ?H history0 tab13 ([RFail, RTab tab7], []) =
     (Some tab7, ([], [TabsGet 10, TabsGet 7]))"
    using getOpenerForNewTab_resolves [of tab13 _ ?H "([RFail, RTab tab7], [])" tab7
        "([RTab tab7], [TabsGet 10])" history0 "\<lparr>current = Some 7, previous = Some 5\<rparr>" 7
        "([], [TabsGet 10, TabsGet 7])"] ne g2
    by (simp add: tab13_def history0_def)
  have ne3: "no_explicit ?H (tab13\<lparr>openerTabId := None\<rparr>) ([RTab tab10], []) ([RTab tab10], [])"
    by (simp add: no_explicit_def tab13_def)
  have c: "getOpenerForNewTab ?H history1 (tab13\<lparr>openerTabId := None\<rparr>) ([RTab tab10], []) =
     (Some tab10, ([], [TabsGet 10]))"
    using getOpenerForNewTab_resolves [of "tab13\<lparr>openerTabId := None\<rparr>" _ ?H "([RTab tab10], [])"
        tab10 "([RTab tab10], [])" history1 "\<lparr>current = Some 13, previous = Some 10\<rparr>" _
        "([], [TabsGet 10])" 10] ne3 g1
    by (simp add: tab13_def history1_def)
  have cand: "candidateId history0 tab13 = Some 7"
    by (simp add: candidateId_def history0_def tab13_def)
  have ne4: "no_explicit ?H tab13 ([RFail, RFail], []) ([RFail], [TabsGet 10])"
    by (simp add: no_explicit_def tab13_def call_get_def scripted_def)
  have g4: "call_get ?H 7 ([RFail], [TabsGet 10]) = (Inl Rejected, ([], [TabsGet 10, TabsGet 7]))"
    by (simp add: call_get_def scripted_def)
  have d: "getOpenerForNewTab ?H history0 tab13 ([RFail, RFail], []) =
     (None, ([], [TabsGet 10, TabsGet 7]))"
    using getOpenerForNewTab_resolves [of tab13 _ ?H "([RFail, RFail], [])" _
        "([RFail], [TabsGet 10])" history0 _ 7 "([], [TabsGet 10, TabsGet 7])" _ Rejected]
      ne4 cand g4
    by blast
  have cand5: "candidateId Map.empty tab13 = None"
    by (simp add: candidateId_def)
  have ne5: "no_explicit ?H tab13 ([RFail], []) ([], [TabsGet 10])"
    by (simp add: no_explicit_def tab13_def call_get_def scripted_def)
  have e: "getOpenerForNewTab ?H Map.empty tab13 ([RFail], []) = (None, ([], [TabsGet 10]))"
    using getOpenerForNewTab_resolves [of tab13 _ ?H "([RFail], [])" _ "([], [TabsGet 10])"
        Map.empty] ne5 cand5
    by blast
  have f: "candidateId history1 tab13 = Some 10"
    using getOpenerForNewTab_resolves [of tab13 _ ?H _ _ _ history1 _ 10]
    by (simp add: history1_def tab13_def)
  from a b c d e f show ?thesis by blast
qed

section \<open>The relocator\<close>

lemmas call_defs = call_get_def call_query_def call_move_def call_ungroup_def call_create_def
  call_remove_def wait_def

lemma window_hop_ignores_ungroup:
  "window_hop (H\<lparr>tabs_ungroup := None\<rparr>) i w s = window_hop H i w s"
  by (simp add: window_hop_def call_defs cong: prod.case_cong sum.case_cong)

lemma window_hop_starts:
  "\<exists>h2 rest. window_hop H i w (h, l) = (h2, l @ WindowsCreate # rest)"
proof (cases "windows_create H h")
  case (Pair r h1)
  show ?thesis
  proof (cases r)
    case (Inl e)
    then show ?thesis using Pair by (simp add: window_hop_def call_defs)
  next
    case (Inr tmp)
    obtain r2 h2 where m1: "tabs_move H i tmp (- 1) h1 = (r2, h2)" by (cases "tabs_move H i tmp (- 1) h1")
    obtain r3 h3 where m2: "tabs_move H i w (- 1) h2 = (r3, h3)" by (cases "tabs_move H i w (- 1) h2")
    obtain r4 h4 where m3: "windows_remove H tmp h3 = (r4, h4)" by (cases "windows_remove H tmp h3")
    show ?thesis
    proof (cases r2)
      case (Inl e)
      then show ?thesis using Pair Inr m1 by (simp add: window_hop_def call_defs)
    next
      case r2r: (Inr u)
      show ?thesis
      proof (cases r3)
        case (Inl e)
        then show ?thesis using Pair Inr m1 r2r m2 by (simp add: window_hop_def call_defs)
      next
        case r3r: (Inr u3)
        then show ?thesis using Pair Inr m1 r2r m2 m3 by (simp add: window_hop_def call_defs)
      qed
    qed
  qed
qed

lemma window_hop_full:
  assumes "windows_create H h1 = (Inr tmp, h2)"
    and "tabs_move H i tmp (- 1) h2 = (Inr (), h3)"
    and "tabs_move H i w (- 1) h3 = (Inr (), h4)"
    and "windows_remove H tmp h4 = (r, h5)"
  shows "window_hop H i w (h1, l) =
           (h5, l @ [WindowsCreate, TabsMove i tmp (- 1), TabsMove i w (- 1), WindowsRemove tmp])"
  using assms by (simp add: window_hop_def call_defs)

text \<open>
  Claim C10. When the native ungroup primitive is present but its call is rejected,
  \<open>ensureUngrouped\<close> goes on exactly as the configuration without the primitive
  does: the auxiliary window is requested next, and when the host accepts the calls
  the tab is moved into it and back to the tail of the original window.
\<close>

theorem ensureUngrouped_falls_back:
  assumes "tabs_ungroup H = Some u" and "u [i] h = (Inl e, h1)"
  shows "ensureUngrouped H i w (h, log) =
           ensureUngrouped (H\<lparr>tabs_ungroup := None\<rparr>) i w (h1, log @ [TabsUngroup [i]]) \<and>
         (\<exists>h2 rest. ensureUngrouped H i w (h, log) =
                      (h2, log @ [TabsUngroup [i], WindowsCreate] @ rest)) \<and>
         (\<forall>tmp h2 h3 h4 r h5.
            windows_create H h1 = (Inr tmp, h2) \<and> tabs_move H i tmp (- 1) h2 = (Inr (), h3) \<and>
            tabs_move H i w (- 1) h3 = (Inr (), h4) \<and> windows_remove H tmp h4 = (r, h5) \<longrightarrow>
            ensureUngrouped H i w (h, log) =
              (h5, log @ [TabsUngroup [i], WindowsCreate, TabsMove i tmp (- 1),
                          TabsMove i w (- 1), WindowsRemove tmp]))"
proof -
  have eq: "ensureUngrouped H i w (h, log) = window_hop H i w (h1, log @ [TabsUngroup [i]])"
    using assms by (simp add: ensureUngrouped_def call_defs)
  have a: "ensureUngrouped H i w (h, log) =
           ensureUngrouped (H\<lparr>tabs_ungroup := None\<rparr>) i w (h1, log @ [TabsUngroup [i]])"
    using eq by (simp add: ensureUngrouped_def window_hop_ignores_ungroup)
  have b: "\<exists>h2 rest. ensureUngrouped H i w (h, log) =
                      (h2, log @ [TabsUngroup [i], WindowsCreate] @ rest)"
    using eq window_hop_starts [of H i w h1 "log @ [TabsUngroup [i]]"] by simp
  have c: "\<forall>tmp h2 h3 h4 r h5.
            windows_create H h1 = (Inr tmp, h2) \<and> tabs_move H i tmp (- 1) h2 = (Inr (), h3) \<and>
            tabs_move H i w (- 1) h3 = (Inr (), h4) \<and> windows_remove H tmp h4 = (r, h5) \<longrightarrow>
            ensureUngrouped H i w (h, log) =
              (h5, log @ [TabsUngroup [i], WindowsCreate, TabsMove i tmp (- 1),
                          TabsMove i w (- 1), WindowsRemove tmp])"
    using eq window_hop_full [of H h1 _ _ i _ w _ _ _ "log @ [TabsUngroup [i]]"] by simp
  from a b c show ?thesis by blast
qed

theorem ensureUngrouped_falls_back_witness:
  "tabs_ungroup (scripted True) = Some (\<lambda>ids. reply_ok) \<and>
   reply_ok [RFail, RWin 2, ROk, ROk, ROk] = (Inl Rejected, [RWin 2, ROk, ROk, ROk]) \<and>
   ensureUngrouped (scripted True) 13 1 ([RFail, RWin 2, ROk, ROk, ROk], []) =
     ([], [TabsUngroup [13], WindowsCreate, TabsMove 13 2 (- 1), TabsMove 13 1 (- 1),
           WindowsRemove 2])"
proof -
  have a: "tabs_ungroup (scripted True) = Some (\<lambda>ids. reply_ok)"
    by (simp add: scripted_def)
  have b: "(\<lambda>ids. reply_ok) [13] [RFail, RWin 2, ROk, ROk, ROk] =
             (Inl Rejected, [RWin 2, ROk, ROk, ROk])"
    by simp
  have c: "windows_create (scripted True) [RWin 2, ROk, ROk, ROk] = (Inr 2, [ROk, ROk, ROk]) \<and>
           tabs_move (scripted True) 13 2 (- 1) [ROk, ROk, ROk] = (Inr (), [ROk, ROk]) \<and>
           tabs_move (scripted True) 13 1 (- 1) [ROk, ROk] = (Inr (), [ROk]) \<and>
           windows_remove (scripted True) 2 [ROk] = (Inr (), [])"
    by (simp add: scripted_def)
  have "ensureUngrouped (scripted True) 13 1 ([RFail, RWin 2, ROk, ROk, ROk], []) =
     ([], [] @ [TabsUngroup [13], WindowsCreate, TabsMove 13 2 (- 1), TabsMove 13 1 (- 1),
           WindowsRemove 2])"
    using ensureUngrouped_falls_back [of "scripted True" "\<lambda>ids. reply_ok" 13
        "[RFail, RWin 2, ROk, ROk, ROk]" Rejected "[RWin 2, ROk, ROk, ROk]" 1 "[]"] a b c
    by blast
  then show ?thesis using a b by simp
qed

section \<open>The orchestrator: no action for an ungrouped opener\<close>

lemma try_get_reads:
  assumes "try_get H i (h, l) = (r, (h', l'))"
  shows "l' = l @ [TabsGet i] \<and> (quiet_reads H \<longrightarrow> h' = h)"
proof (cases "tabs_get H i h")
  case (Pair x y)
  have q: "quiet_reads H \<longrightarrow> snd (tabs_get H i h) = h" by (simp add: quiet_reads_def)
  show ?thesis
  proof (cases x)
    case (Inl e)
    then show ?thesis using assms Pair q by (simp add: try_get_def call_get_def)
  next
    case (Inr t)
    then show ?thesis using assms Pair q by (simp add: try_get_def call_get_def)
  qed
qed

lemma getOpener_reads:
  assumes "getOpenerForNewTab H m n (h, l) = (r, (h', l'))"
  shows "(\<exists>new. l' = l @ new \<and> list_all is_read new) \<and> (quiet_reads H \<longrightarrow> h' = h)"
proof -
  obtain r1 h1 l1 where first:
    "(case openerTabId n of Some oid \<Rightarrow> try_get H oid (h, l) | None \<Rightarrow> (None, (h, l))) = (r1, (h1, l1))"
    by (metis surj_pair)
  have f: "(\<exists>new. l1 = l @ new \<and> list_all is_read new) \<and> (quiet_reads H \<longrightarrow> h1 = h)"
  proof (cases "openerTabId n")
    case None
    then show ?thesis using first by simp
  next
    case (Some oid)
    then have "try_get H oid (h, l) = (r1, (h1, l1))" using first by simp
    from try_get_reads [OF this] show ?thesis by (simp add: is_read_def)
  qed
  show ?thesis
  proof (cases r1)
    case (Some t)
    then have "(r, (h', l')) = (Some t, (h1, l1))"
      using assms first by (simp add: getOpenerForNewTab_def)
    then show ?thesis using f by simp
  next
    case None
    show ?thesis
    proof (cases "candidateId m n")
      case cn: None
      then have "(r, (h', l')) = (None, (h1, l1))"
        using assms first None by (simp add: getOpenerForNewTab_def)
      then show ?thesis using f by simp
    next
      case (Some cid)
      then have "try_get H cid (h1, l1) = (r, (h', l'))"
        using assms first None by (simp add: getOpenerForNewTab_def)
      from try_get_reads [OF this] f show ?thesis by (auto simp: is_read_def)
    qed
  qed
qed


lemma refetch_reads:
  assumes "call_get H i (wait H ms (h1, l1)) = (r, (h2, l2))"
  shows "l2 = l1 @ [Wait ms, TabsGet i] \<and> (quiet_reads H \<longrightarrow> h2 = h1)"
proof -
  have q: "quiet_reads H \<longrightarrow> snd (tabs_get H i (setTimeout H ms h1)) = h1"
    by (simp add: quiet_reads_def)
  show ?thesis
    using assms q by (cases "tabs_get H i (setTimeout H ms h1)") (auto simp: call_get_def wait_def)
qed

lemma fetch_reads:
  assumes "call_get H i (h1, l1) = (r, (h2, l2))"
  shows "l2 = l1 @ [TabsGet i] \<and> (quiet_reads H \<longrightarrow> h2 = h1)"
proof -
  have q: "quiet_reads H \<longrightarrow> snd (tabs_get H i h1) = h1"
    by (simp add: quiet_reads_def)
  show ?thesis
    using assms q by (cases "tabs_get H i h1") (auto simp: call_get_def)
qed

lemma move_stops:
  assumes "call_get H (tab_id opener) (wait H STABILIZE_MS s1) = (r, s2)"
    and "case r of Inl e \<Rightarrow> True | Inr fresh \<Rightarrow> \<not> isGrouped H fresh"
  shows "moveDirectlyAfterGroup H n opener s1 = (Inr (), s2)"
proof (cases r)
  case (Inl e)
  then show ?thesis using assms by (simp add: moveDirectlyAfterGroup_def)
next
  case (Inr fresh)
  then show ?thesis using assms by (simp add: moveDirectlyAfterGroup_def)
qed

lemma move1_stops:
  assumes "call_get H (tab_id opener) s1 = (r, s2)"
    and "case r of Inl e \<Rightarrow> True | Inr fresh \<Rightarrow> \<not> isGrouped H fresh"
  shows "moveDirectlyAfterGroup1 H n opener s1 = (Inr (), s2)"
proof (cases r)
  case (Inl e)
  then show ?thesis using assms by (simp add: moveDirectlyAfterGroup1_def)
next
  case (Inr fresh)
  then show ?thesis using assms by (simp add: moveDirectlyAfterGroup1_def)
qed

text \<open>
  Claim C2. When the resolved opener is ungrouped, in the snapshot first resolved or
  in the record fetched again (or when that fetch is rejected), the handler ends
  normally having issued nothing but fetches and the wait: no move, no ungroup, no
  query, no window call. On a host whose fetches and timer leave its state alone the
  host state, and with it the new tab's window and index, is what it was before. This
  holds for both copies of the handler.
\<close>

theorem onCreated_ungrouped_opener_noop:
  assumes "getOpenerForNewTab H m n (h, []) = (Some opener, s1)"
  shows
    "((\<not> isGrouped H opener \<or>
       (\<exists>r s2. call_get H (tab_id opener) (wait H STABILIZE_MS s1) = (r, s2) \<and>
               (case r of Inl e \<Rightarrow> True | Inr fresh \<Rightarrow> \<not> isGrouped H fresh))) \<longrightarrow>
      (\<exists>h' log. onCreated H m (Some n) (h, []) = (Inr (), (h', log)) \<and>
                list_all is_read log \<and> (quiet_reads H \<longrightarrow> h' = h))) \<and>
     ((\<not> isGrouped H opener \<or>
       (\<exists>r s2. call_get H (tab_id opener) s1 = (r, s2) \<and>
               (case r of Inl e \<Rightarrow> True | Inr fresh \<Rightarrow> \<not> isGrouped H fresh))) \<longrightarrow>
      (\<exists>h' log. onCreated1 H m (Some n) (h, []) = (Inr (), (h', log)) \<and>
                list_all is_read log \<and> (quiet_reads H \<longrightarrow> h' = h)))"
proof -
  obtain h1 l1 where s1: "s1 = (h1, l1)" by (cases s1)
  have res: "list_all is_read l1 \<and> (quiet_reads H \<longrightarrow> h1 = h)"
    using getOpener_reads [of H m n h "[]" "Some opener" h1 l1] assms s1 by simp
  have a: "\<exists>h' log. onCreated H m (Some n) (h, []) = (Inr (), (h', log)) \<and>
                list_all is_read log \<and> (quiet_reads H \<longrightarrow> h' = h)"
    if u: "\<not> isGrouped H opener \<or>
       (\<exists>r s2. call_get H (tab_id opener) (wait H STABILIZE_MS s1) = (r, s2) \<and>
               (case r of Inl e \<Rightarrow> True | Inr fresh \<Rightarrow> \<not> isGrouped H fresh))"
  proof (cases "isGrouped H opener")
    case False
    then have "onCreated H m (Some n) (h, []) = (Inr (), (h1, l1))"
      using assms s1 by (simp add: onCreated_def)
    then show ?thesis using res by blast
  next
    case True
    then obtain r s2 where g: "call_get H (tab_id opener) (wait H STABILIZE_MS s1) = (r, s2)"
      and c: "case r of Inl e \<Rightarrow> True | Inr fresh \<Rightarrow> \<not> isGrouped H fresh"
      using u by blast
    obtain h2 l2 where s2: "s2 = (h2, l2)" by (cases s2)
    have "onCreated H m (Some n) (h, []) = (Inr (), (h2, l2))"
      using assms True move_stops [OF g c] s2 by (simp add: onCreated_def)
    moreover have "l2 = l1 @ [Wait STABILIZE_MS, TabsGet (tab_id opener)] \<and>
        (quiet_reads H \<longrightarrow> h2 = h1)"
      using refetch_reads [of H "tab_id opener" STABILIZE_MS h1 l1 r h2 l2] g s1 s2 by simp
    ultimately show ?thesis using res by (auto simp: is_read_def)
  qed
  have b: "\<exists>h' log. onCreated1 H m (Some n) (h, []) = (Inr (), (h', log)) \<and>
                list_all is_read log \<and> (quiet_reads H \<longrightarrow> h' = h)"
    if u: "\<not> isGrouped H opener \<or>
       (\<exists>r s2. call_get H (tab_id opener) s1 = (r, s2) \<and>
               (case r of Inl e \<Rightarrow> True | Inr fresh \<Rightarrow> \<not> isGrouped H fresh))"
  proof (cases "isGrouped H opener")
    case False
    then have "onCreated1 H m (Some n) (h, []) = (Inr (), (h1, l1))"
      using assms s1 by (simp add: onCreated1_def)
    then show ?thesis using res by blast
  next
    case True
    then obtain r s2 where g: "call_get H (tab_id opener) s1 = (r, s2)"
      and c: "case r of Inl e \<Rightarrow> True | Inr fresh \<Rightarrow> \<not> isGrouped H fresh"
      using u by blast
    obtain h2 l2 where s2: "s2 = (h2, l2)" by (cases s2)
    have "onCreated1 H m (Some n) (h, []) = (Inr (), (h2, l2))"
      using assms True move1_stops [OF g c] s2 by (simp add: onCreated1_def)
    moreover have "l2 = l1 @ [TabsGet (tab_id opener)] \<and> (quiet_reads H \<longrightarrow> h2 = h1)"
      using fetch_reads [of H "tab_id opener" h1 l1 r h2 l2] g s1 s2 by simp
    ultimately show ?thesis using res by (auto simp: is_read_def)
  qed
  from a b show ?thesis by blast
qed

lemma reference_host_quiet: "quiet_reads (reference_host native)"
  by (simp add: quiet_reads_def reference_host_def ref_get_def split: option.split)

theorem onCreated_ungrouped_opener_noop_witness:
  "getOpenerForNewTab (reference_host True) Map.empty tab14 (scenario2, []) =
     (Some \<lparr>tab_id = 12, windowId = 1, groupId = Some (- 1), index = 3, openerTabId = None\<rparr>,
      (scenario2, [TabsGet 12])) \<and>
   onCreated (reference_host True) Map.empty (Some tab14) (scenario2, []) =
     (Inr (), (scenario2, [TabsGet 12])) \<and>
   onCreated1 (reference_host True) Map.empty (Some tab14) (scenario2, []) =
     (Inr (), (scenario2, [TabsGet 12])) \<and>
   (\<exists>h' log. onCreated (scripted True) Map.empty (Some tab20)
       ([RTab tab10, RTab (tab10\<lparr>groupId := Some (- 1)\<rparr>)], []) = (Inr (), (h', log)) \<and>
       list_all is_read log) \<and>
   (\<exists>h' log. onCreated1 (scripted True) Map.empty (Some tab20)
       ([RTab tab10, RTab (tab10\<lparr>groupId := Some (- 1)\<rparr>)], []) = (Inr (), (h', log)) \<and>
       list_all is_read log)"
proof -
  let ?R = "reference_host True"
  let ?o = "\<lparr>tab_id = 12, windowId = 1, groupId = Some (- 1), index = 3, openerTabId = None\<rparr>"
  have res: "getOpenerForNewTab ?R Map.empty tab14 (scenario2, []) =
      (Some ?o, (scenario2, [TabsGet 12]))"
    by (simp add: getOpenerForNewTab_def try_get_def call_get_def reference_host_def ref_get_def
        scenario2_def tab14_def snapshot_def)
  have ung: "\<not> isGrouped ?R ?o"
    by (simp add: isGrouped_def TAB_GROUP_ID_NONE_def reference_host_def)
  note t = onCreated_ungrouped_opener_noop [OF res]
  have a: "\<exists>h' log. onCreated ?R Map.empty (Some tab14) (scenario2, []) = (Inr (), (h', log)) \<and>
                list_all is_read log \<and> (quiet_reads ?R \<longrightarrow> h' = scenario2)"
    using t ung by blast
  have a1: "\<exists>h' log. onCreated1 ?R Map.empty (Some tab14) (scenario2, []) = (Inr (), (h', log)) \<and>
                list_all is_read log \<and> (quiet_reads ?R \<longrightarrow> h' = scenario2)"
    using t ung by blast
  have e: "onCreated ?R Map.empty (Some tab14) (scenario2, []) = (Inr (), (scenario2, [TabsGet 12]))"
    using res ung by (simp add: onCreated_def)
  have e1: "onCreated1 ?R Map.empty (Some tab14) (scenario2, []) = (Inr (), (scenario2, [TabsGet 12]))"
    using res ung by (simp add: onCreated1_def)
  let ?S = "scripted True :: reply list host"
  let ?sc = "[RTab tab10, RTab (tab10\<lparr>groupId := Some (- 1)\<rparr>)]"
  have res2: "getOpenerForNewTab ?S Map.empty tab20 (?sc, []) =
      (Some tab10, ([RTab (tab10\<lparr>groupId := Some (- 1)\<rparr>)], [TabsGet 10]))"
    by (simp add: getOpenerForNewTab_def try_get_def call_get_def scripted_def tab20_def)
  have f2: "call_get ?S (tab_id tab10) (wait ?S STABILIZE_MS ([RTab (tab10\<lparr>groupId := Some (- 1)\<rparr>)], [TabsGet 10])) =
      (Inr (tab10\<lparr>groupId := Some (- 1)\<rparr>), ([], [TabsGet 10, Wait STABILIZE_MS, TabsGet 10]))"
    by (simp add: call_get_def wait_def scripted_def tab10_def)
  have f1: "call_get ?S (tab_id tab10) ([RTab (tab10\<lparr>groupId := Some (- 1)\<rparr>)], [TabsGet 10]) =
      (Inr (tab10\<lparr>groupId := Some (- 1)\<rparr>), ([], [TabsGet 10, TabsGet 10]))"
    by (simp add: call_get_def scripted_def tab10_def)
  have ung2: "\<not> isGrouped ?S (tab10\<lparr>groupId := Some (- 1)\<rparr>)"
    by (simp add: isGrouped_def TAB_GROUP_ID_NONE_def scripted_def)
  note t2 = onCreated_ungrouped_opener_noop [OF res2]
  have b: "\<exists>h' log. onCreated ?S Map.empty (Some tab20) (?sc, []) = (Inr (), (h', log)) \<and>
       list_all is_read log"
    using t2 f2 ung2 by fastforce
  have b1: "\<exists>h' log. onCreated1 ?S Map.empty (Some tab20) (?sc, []) = (Inr (), (h', log)) \<and>
       list_all is_read log"
    using t2 f1 ung2 by fastforce
  from res e e1 b b1 show ?thesis by blast
qed

section \<open>The orchestrator: placement after the group\<close>

lemma lastIndex_loop_nonempty:
  "ts \<noteq> [] \<Longrightarrow> lastIndex_loop (- 1) ts = Max (set (map (\<lambda>t. int (index t)) ts)) \<and>
     0 \<le> lastIndex_loop (- 1) ts"
proof -
  assume ne: "ts \<noteq> []"
  then obtain a list where c: "ts = a # list" by (cases ts) auto
  let ?S = "set (map (\<lambda>t. int (index t)) ts)"
  have fin: "finite ?S" by simp
  have "int (index a) \<in> ?S" using c by simp
  then have "0 \<le> Max ?S" using fin by (meson Max_ge of_nat_0_le_iff order_trans)
  then show ?thesis using ne by (simp add: lastIndex_loop_value)
qed

lemma place_accepted:
  assumes q1: "tabs_query H w (Some g) h3 = (Inr members, h4)"
    and ne: "members \<noteq> []"
    and q2: "tabs_query H w None h4 = (Inr allTabs, h5)"
    and mv: "tabs_move H i w
               (min (int (length allTabs)) (Max (set (map (\<lambda>t. int (index t)) members)) + 1)) h5 =
             (Inr (), h6)"
  shows "place_after_group H i w g (h3, l) =
           (Inr (), (h6, l @ [TabsQuery w (Some g), TabsQuery w None,
              TabsMove i w (min (int (length allTabs))
                (Max (set (map (\<lambda>t. int (index t)) members)) + 1))]))"
proof -
  have b: "lastIndexOfGroup H g w (h3, l) =
      (Inr (Max (set (map (\<lambda>t. int (index t)) members))), (h4, l @ [TabsQuery w (Some g)]))"
    using q1 ne lastIndex_loop_nonempty [OF ne] by (simp add: lastIndexOfGroup_def call_query_def)
  have p: "0 \<le> Max (set (map (\<lambda>t. int (index t)) members))"
    using lastIndex_loop_nonempty [OF ne] by simp
  show ?thesis
    using b p q2 mv by (simp add: place_after_group_def call_query_def call_move_def)
qed

lemma place1_accepted:
  assumes q1: "tabs_query H w (Some g) h3 = (Inr members, h4)"
    and ne: "members \<noteq> []"
    and q2: "tabs_query H w None h4 = (Inr allTabs, h5)"
    and mv: "tabs_move H i w
               (min (int (length allTabs)) (Max (set (map (\<lambda>t. int (index t)) members)) + 1)) h5 =
             (r, h6)"
  shows "place_after_group1 H i w g (h3, l) =
           (Inr (), (h6, l @ [TabsQuery w (Some g), TabsQuery w None,
              TabsMove i w (min (int (length allTabs))
                (Max (set (map (\<lambda>t. int (index t)) members)) + 1))]))"
proof -
  have b: "lastIndexOfGroup H g w (h3, l) =
      (Inr (Max (set (map (\<lambda>t. int (index t)) members))), (h4, l @ [TabsQuery w (Some g)]))"
    using q1 ne lastIndex_loop_nonempty [OF ne] by (simp add: lastIndexOfGroup_def call_query_def)
  have p: "0 \<le> Max (set (map (\<lambda>t. int (index t)) members))"
    using lastIndex_loop_nonempty [OF ne] by simp
  show ?thesis
    using b p q2 mv by (simp add: place_after_group1_def call_query_def call_move_def)
qed

text \<open>
  Up to the placement step both copies of the handler do the same on every host: when
  the resolved opener is grouped, the record fetched again gives its group \<open>g\<close> and
  the new tab is in the opener's window or is brought there, the run continues with
  \<open>ensureUngrouped\<close> and the placement step for \<open>g\<close> in that window.
\<close>

lemma onCreated_reaches_placement:
  assumes res: "getOpenerForNewTab H m n s0 = (Some opener, (h1, l1))"
    and grp: "isGrouped H opener"
    and ref: "tabs_get H (tab_id opener) (setTimeout H STABILIZE_MS h1) = (Inr fresh, h2)"
    and fg: "groupId fresh = Some g"
    and gn: "g \<noteq> TAB_GROUP_ID_NONE H"
    and win: "if windowId n = windowId opener then h2' = h2
              else tabs_move H (tab_id n) (windowId opener) (- 1) h2 = (Inr (), h2')"
  shows "\<exists>l2. onCreated H m (Some n) s0 =
           place_after_group H (tab_id n) (windowId opener) g
             (ensureUngrouped H (tab_id n) (windowId opener) (h2', l2))"
proof -
  let ?w = "windowId opener"
  let ?pre = "if windowId n = ?w then [] else [TabsMove (tab_id n) ?w (- 1)]"
  let ?l2 = "l1 @ [Wait STABILIZE_MS, TabsGet (tab_id opener)]"
  have g: "isGrouped H fresh" using fg gn by (simp add: isGrouped_def)
  have f: "call_get H (tab_id opener) (wait H STABILIZE_MS (h1, l1)) = (Inr fresh, (h2, ?l2))"
    using ref by (simp add: call_get_def wait_def)
  have w: "(if windowId n \<noteq> ?w then call_move H (tab_id n) ?w (- 1) (h2, ?l2) else (Inr (), (h2, ?l2))) =
           (Inr (), (h2', ?l2 @ ?pre))"
    using win by (simp add: call_move_def)
  have mvd: "moveDirectlyAfterGroup H n opener (h1, l1) =
      place_after_group H (tab_id n) ?w g (ensureUngrouped H (tab_id n) ?w (h2', ?l2 @ ?pre))"
    unfolding moveDirectlyAfterGroup_def Let_def using f g fg w by simp
  have "onCreated H m (Some n) s0 = moveDirectlyAfterGroup H n opener (h1, l1)"
    using res grp by (simp add: onCreated_def)
  then have "onCreated H m (Some n) s0 =
      place_after_group H (tab_id n) ?w g (ensureUngrouped H (tab_id n) ?w (h2', ?l2 @ ?pre))"
    using mvd by simp
  then show ?thesis by (rule exI)
qed

lemma onCreated1_reaches_placement:
  assumes res: "getOpenerForNewTab H m n s0 = (Some opener, (h1, l1))"
    and grp: "isGrouped H opener"
    and ref: "tabs_get H (tab_id opener) h1 = (Inr fresh, h2)"
    and fg: "groupId fresh = Some g"
    and gn: "g \<noteq> TAB_GROUP_ID_NONE H"
    and win: "if windowId n = windowId fresh then h2' = h2
              else tabs_move H (tab_id n) (windowId fresh) (- 1) h2 = (Inr (), h2')"
  shows "\<exists>l2. onCreated1 H m (Some n) s0 =
           place_after_group1 H (tab_id n) (windowId fresh) g
             (ensureUngrouped H (tab_id n) (windowId fresh) (h2', l2))"
proof -
  let ?w = "windowId fresh"
  let ?pre = "if windowId n = ?w then [] else [TabsMove (tab_id n) ?w (- 1)]"
  let ?l2 = "l1 @ [TabsGet (tab_id opener)]"
  have g: "isGrouped H fresh" using fg gn by (simp add: isGrouped_def)
  have f: "call_get H (tab_id opener) (h1, l1) = (Inr fresh, (h2, ?l2))"
    using ref by (simp add: call_get_def)
  have w: "(if windowId n \<noteq> ?w then call_move H (tab_id n) ?w (- 1) (h2, ?l2) else (Inr (), (h2, ?l2))) =
           (Inr (), (h2', ?l2 @ ?pre))"
    using win by (simp add: call_move_def)
  have mvd: "moveDirectlyAfterGroup1 H n opener (h1, l1) =
      place_after_group1 H (tab_id n) ?w g (ensureUngrouped H (tab_id n) ?w (h2', ?l2 @ ?pre))"
    unfolding moveDirectlyAfterGroup1_def Let_def using f g fg w by simp
  have "onCreated1 H m (Some n) s0 = moveDirectlyAfterGroup1 H n opener (h1, l1)"
    using res grp by (simp add: onCreated1_def)
  then have "onCreated1 H m (Some n) s0 =
      place_after_group1 H (tab_id n) ?w g (ensureUngrouped H (tab_id n) ?w (h2', ?l2 @ ?pre))"
    using mvd by simp
  then show ?thesis by (rule exI)
qed

section \<open>The orchestrator: rejected calls\<close>

lemmas run_defs = onCreated_def onCreated1_def getOpenerForNewTab_def try_get_def
  moveDirectlyAfterGroup_def moveDirectlyAfterGroup1_def place_after_group_def
  place_after_group1_def retry_move_def ensureUngrouped_def window_hop_def lastIndexOfGroup_def
  isGrouped_def TAB_GROUP_ID_NONE_def
  call_get_def call_query_def call_move_def call_ungroup_def call_create_def
  call_remove_def wait_def

text \<open>
  Claim C5. The first boundary computation is guarded: an empty group ends the
  handler. The recomputation in the retry is not: with the group gone it yields
  \<open>-1\<close>, the target becomes \<open>min (tab count) 0 = 0\<close>, and the new tab is moved to
  the front of the window. The run below shows it.
\<close>

theorem retry_moves_to_front_when_group_is_gone:
  "onCreated (scripted True) Map.empty (Some tab20) (retry_script, []) =
     (Inr (), ([],
        [TabsGet 10, Wait STABILIZE_MS, TabsGet 10, TabsUngroup [20],
         TabsQuery 1 (Some 5), TabsQuery 1 None, TabsMove 20 1 2,
         Wait STABILIZE_MS, TabsQuery 1 (Some 5), TabsQuery 1 None, TabsMove 20 1 0]))"
  by (simp add: run_defs scripted_def retry_script_def tab20_def tab10_def tab7_def)

text \<open>
  Claim C9. The two queries of the first placement attempt stand outside every
  \<^verbatim>\<open>try\<close>: when the host rejects the boundary query, or the query for the
  window's tabs, the rejection leaves the handler. The same holds in the copy without
  the retry.
\<close>

theorem rejected_query_leaves_the_handler:
  "onCreated (scripted True) Map.empty (Some tab20) ([RTab tab10, RTab tab10, ROk, RFail], []) =
     (Inl Rejected, ([],
        [TabsGet 10, Wait STABILIZE_MS, TabsGet 10, TabsUngroup [20], TabsQuery 1 (Some 5)])) \<and>
   onCreated (scripted True) Map.empty (Some tab20)
       ([RTab tab10, RTab tab10, ROk, RTabs [tab7, tab10], RFail], []) =
     (Inl Rejected, ([],
        [TabsGet 10, Wait STABILIZE_MS, TabsGet 10, TabsUngroup [20], TabsQuery 1 (Some 5),
         TabsQuery 1 None])) \<and>
   onCreated1 (scripted True) Map.empty (Some tab20) ([RTab tab10, RTab tab10, ROk, RFail], []) =
     (Inl Rejected, ([],
        [TabsGet 10, TabsGet 10, TabsUngroup [20], TabsQuery 1 (Some 5)]))"
  by (simp add: run_defs scripted_def tab20_def tab10_def tab7_def)

text \<open>
  Claim C6, as stated, fails. In the copy of the handler with the retry, after a
  rejected first move the retry makes no second move when the host rejects the fresh
  boundary query: the first run below ends normally with one move issued. In the copy
  without the retry a rejected move is swallowed at once: the second run ends normally
  with no wait, no fresh query and no second move.
\<close>

theorem retry_without_second_move_counterexample:
  "onCreated (scripted True) Map.empty (Some tab20)
       ([RTab tab10, RTab tab10, ROk, RTabs [tab7, tab10],
         RTabs [tab7, tab10, tab20\<lparr>groupId := Some (- 1)\<rparr>], RFail, RFail], []) =
     (Inr (), ([],
        [TabsGet 10, Wait STABILIZE_MS, TabsGet 10, TabsUngroup [20],
         TabsQuery 1 (Some 5), TabsQuery 1 None, TabsMove 20 1 2,
         Wait STABILIZE_MS, TabsQuery 1 (Some 5)])) \<and>
   length (filter is_move
        [TabsGet 10, Wait STABILIZE_MS, TabsGet 10, TabsUngroup [20],
         TabsQuery 1 (Some 5), TabsQuery 1 None, TabsMove 20 1 2,
         Wait STABILIZE_MS, TabsQuery 1 (Some 5)]) = 1 \<and>
   onCreated1 (scripted True) Map.empty (Some tab20)
       ([RTab tab10, RTab tab10, ROk, RTabs [tab7, tab10],
         RTabs [tab7, tab10, tab20\<lparr>groupId := Some (- 1)\<rparr>], RFail], []) =
     (Inr (), ([],
        [TabsGet 10, TabsGet 10, TabsUngroup [20],
         TabsQuery 1 (Some 5), TabsQuery 1 None, TabsMove 20 1 2]))"
  by (simp add: run_defs scripted_def tab20_def tab10_def tab7_def is_move_def)

section \<open>The orchestrator: the retry\<close>

lemma retry_move_trace:
  "\<exists>h' R. retry_move H i w g (h, l) = (h', l @ R) \<and>
     length (filter is_move R) \<le> 1 \<and> Wait STABILIZE_MS \<notin> set R \<and>
     (case tabs_query H w (Some g) h of
        (Inl e2, h4) \<Rightarrow> R = [TabsQuery w (Some g)]
      | (Inr gs2, h4) \<Rightarrow>
          (case tabs_query H w None h4 of
             (Inl e3, h5) \<Rightarrow> R = [TabsQuery w (Some g), TabsQuery w None]
           | (Inr all2, h5) \<Rightarrow>
               gs2 \<noteq> [] \<longrightarrow>
               R = [TabsQuery w (Some g), TabsQuery w None,
                    TabsMove i w (min (int (length all2)) (lastIndex_loop (- 1) gs2 + 1))]))"
proof (cases "tabs_query H w (Some g) h")
  case (Pair r h4)
  show ?thesis
  proof (cases r)
    case (Inl e2)
    then show ?thesis using Pair
      by (simp add: retry_move_def lastIndexOfGroup_def call_query_def is_move_def)
  next
    case (Inr gs2)
    obtain r5 h5 where q: "tabs_query H w None h4 = (r5, h5)" by (cases "tabs_query H w None h4")
    show ?thesis
    proof (cases r5)
      case (Inl e3)
      then show ?thesis using Pair Inr q
        by (simp add: retry_move_def lastIndexOfGroup_def call_query_def is_move_def)
    next
      case all: (Inr all2)
      obtain r6 h6 where m:
        "tabs_move H i w (min (int (length all2)) (lastIndex_loop (- 1) gs2 + 1)) h5 = (r6, h6)"
        by (cases "tabs_move H i w (min (int (length all2)) (lastIndex_loop (- 1) gs2 + 1)) h5")
      show ?thesis using Pair Inr q all m
        by (simp add: retry_move_def lastIndexOfGroup_def call_query_def call_move_def is_move_def)
    qed
  qed
qed

text \<open>
  Claim C6, amended. Let the first move of the placement step be rejected. The copy
  of the handler with the retry still ends normally: it waits the stabilization
  interval once, asks again for the group's members and then for the window's tabs,
  and, when both answers come and the group still has a member, issues exactly one
  more move, to the target recomputed from the fresh answers, whether or not that
  move is accepted; when one of the two fresh queries is rejected the retry ends
  there, with no second move. In every case at most one move follows the rejected
  one, and no further wait. The copy of the handler without the retry ends normally
  at once: after the rejected move it issues nothing, no wait, no query, no second
  move.
\<close>

theorem place_after_group_retries_once:
  assumes q1: "tabs_query H w (Some g) h = (Inr gs, h1)"
    and ne: "gs \<noteq> []"
    and q2: "tabs_query H w None h1 = (Inr allTabs, h2)"
    and mv: "tabs_move H i w (min (int (length allTabs)) (lastIndex_loop (- 1) gs + 1)) h2 =
               (Inl e, h3)"
  shows "(\<exists>h' R.
           place_after_group H i w g (h, log) =
             (Inr (),
              (h', log @ [TabsQuery w (Some g), TabsQuery w None,
                          TabsMove i w (min (int (length allTabs)) (lastIndex_loop (- 1) gs + 1)),
                          Wait STABILIZE_MS] @ R)) \<and>
           (case tabs_query H w (Some g) (setTimeout H STABILIZE_MS h3) of
              (Inl e2, h4) \<Rightarrow> R = [TabsQuery w (Some g)]
            | (Inr gs2, h4) \<Rightarrow>
                (case tabs_query H w None h4 of
                   (Inl e3, h5) \<Rightarrow> R = [TabsQuery w (Some g), TabsQuery w None]
                 | (Inr all2, h5) \<Rightarrow>
                     gs2 \<noteq> [] \<longrightarrow>
                     R = [TabsQuery w (Some g), TabsQuery w None,
                          TabsMove i w (min (int (length all2)) (lastIndex_loop (- 1) gs2 + 1))])) \<and>
           length (filter is_move R) \<le> 1 \<and> Wait STABILIZE_MS \<notin> set R) \<and>
         place_after_group1 H i w g (h, log) =
           (Inr (),
            (h3, log @ [TabsQuery w (Some g), TabsQuery w None,
                        TabsMove i w (min (int (length allTabs)) (lastIndex_loop (- 1) gs + 1))]))"
proof -
  let ?t = "min (int (length allTabs)) (lastIndex_loop (- 1) gs + 1)"
  let ?l = "log @ [TabsQuery w (Some g), TabsQuery w None, TabsMove i w ?t, Wait STABILIZE_MS]"
  let ?h = "setTimeout H STABILIZE_MS h3"
  have p: "0 \<le> lastIndex_loop (- 1) gs" using lastIndex_loop_nonempty [OF ne] by simp
  have b: "lastIndexOfGroup H g w (h, log) =
      (Inr (lastIndex_loop (- 1) gs), (h1, log @ [TabsQuery w (Some g)]))"
    using q1 by (simp add: lastIndexOfGroup_def call_query_def)
  have run: "place_after_group H i w g (h, log) = (Inr (), retry_move H i w g (?h, ?l))"
    using b p q2 mv by (simp add: place_after_group_def call_query_def call_move_def wait_def)
  obtain h' R where R: "retry_move H i w g (?h, ?l) = (h', ?l @ R)"
    and cnt: "length (filter is_move R) \<le> 1"
    and nowait: "Wait STABILIZE_MS \<notin> set R"
    and shape: "case tabs_query H w (Some g) ?h of
        (Inl e2, h4) \<Rightarrow> R = [TabsQuery w (Some g)]
      | (Inr gs2, h4) \<Rightarrow>
          (case tabs_query H w None h4 of
             (Inl e3, h5) \<Rightarrow> R = [TabsQuery w (Some g), TabsQuery w None]
           | (Inr all2, h5) \<Rightarrow>
               gs2 \<noteq> [] \<longrightarrow>
               R = [TabsQuery w (Some g), TabsQuery w None,
                    TabsMove i w (min (int (length all2)) (lastIndex_loop (- 1) gs2 + 1))])"
    using retry_move_trace [of H i w g ?h ?l] by (elim exE conjE) (rule that, assumption+)
  have "place_after_group H i w g (h, log) = (Inr (), (h', ?l @ R))"
    using run R by simp
  then have "place_after_group H i w g (h, log) =
             (Inr (),
              (h', log @ [TabsQuery w (Some g), TabsQuery w None, TabsMove i w ?t,
                          Wait STABILIZE_MS] @ R))"
    by simp
  then have second: "\<exists>h' R.
           place_after_group H i w g (h, log) =
             (Inr (),
              (h', log @ [TabsQuery w (Some g), TabsQuery w None, TabsMove i w ?t,
                          Wait STABILIZE_MS] @ R)) \<and>
           (case tabs_query H w (Some g) ?h of
              (Inl e2, h4) \<Rightarrow> R = [TabsQuery w (Some g)]
            | (Inr gs2, h4) \<Rightarrow>
                (case tabs_query H w None h4 of
                   (Inl e3, h5) \<Rightarrow> R = [TabsQuery w (Some g), TabsQuery w None]
                 | (Inr all2, h5) \<Rightarrow>
                     gs2 \<noteq> [] \<longrightarrow>
                     R = [TabsQuery w (Some g), TabsQuery w None,
                          TabsMove i w (min (int (length all2)) (lastIndex_loop (- 1) gs2 + 1))])) \<and>
           length (filter is_move R) \<le> 1 \<and> Wait STABILIZE_MS \<notin> set R"
    using shape cnt nowait by (intro exI conjI) assumption+
  have first: "place_after_group1 H i w g (h, log) =
           (Inr (), (h3, log @ [TabsQuery w (Some g), TabsQuery w None, TabsMove i w ?t]))"
    using b p q2 mv by (simp add: place_after_group1_def call_query_def call_move_def)
  from second first show ?thesis by (rule conjI)
qed

theorem place_after_group_retries_once_witness:
  "place_after_group (scripted True) 20 1 5
      ([RTabs [tab7, tab10], RTabs [tab7, tab10, tab20], RFail,
        RTabs [tab7, tab10], RTabs [tab7, tab10, tab20], ROk], []) =
     (Inr (), ([],
        [TabsQuery 1 (Some 5), TabsQuery 1 None, TabsMove 20 1 2, Wait STABILIZE_MS,
         TabsQuery 1 (Some 5), TabsQuery 1 None, TabsMove 20 1 2])) \<and>
   place_after_group1 (scripted True) 20 1 5
      ([RTabs [tab7, tab10], RTabs [tab7, tab10, tab20], RFail,
        RTabs [tab7, tab10], RTabs [tab7, tab10, tab20], ROk], []) =
     (Inr (), ([RTabs [tab7, tab10], RTabs [tab7, tab10, tab20], ROk],
        [TabsQuery 1 (Some 5), TabsQuery 1 None, TabsMove 20 1 2]))"
proof -
  let ?S = "scripted True :: reply list host"
  let ?a = "RTabs [tab7, tab10, tab20]"
  let ?g = "RTabs [tab7, tab10]"
  have t: "min (int (length [tab7, tab10, tab20])) (lastIndex_loop (- 1) [tab7, tab10] + 1) = 2"
    by (simp add: tab7_def tab10_def)
  have q1: "tabs_query ?S 1 (Some 5) [?g, ?a, RFail, ?g, ?a, ROk] =
      (Inr [tab7, tab10], [?a, RFail, ?g, ?a, ROk])"
    by (simp add: scripted_def)
  have ne: "[tab7, tab10] \<noteq> []" by simp
  have q2: "tabs_query ?S 1 None [?a, RFail, ?g, ?a, ROk] =
      (Inr [tab7, tab10, tab20], [RFail, ?g, ?a, ROk])"
    by (simp add: scripted_def)
  have mv: "tabs_move ?S 20 1
      (min (int (length [tab7, tab10, tab20])) (lastIndex_loop (- 1) [tab7, tab10] + 1))
      [RFail, ?g, ?a, ROk] = (Inl Rejected, [?g, ?a, ROk])"
    by (simp add: scripted_def)
  have fresh: "tabs_query ?S 1 (Some 5) (setTimeout ?S STABILIZE_MS [?g, ?a, ROk]) =
      (Inr [tab7, tab10], [?a, ROk])"
    "tabs_query ?S 1 None [?a, ROk] = (Inr [tab7, tab10, tab20], [ROk])"
    by (simp_all add: scripted_def)
  obtain h' R where run: "place_after_group ?S 20 1 5 ([?g, ?a, RFail, ?g, ?a, ROk], []) =
      (Inr (), (h', [] @ [TabsQuery 1 (Some 5), TabsQuery 1 None,
          TabsMove 20 1 (min (int (length [tab7, tab10, tab20])) (lastIndex_loop (- 1) [tab7, tab10] + 1)),
          Wait STABILIZE_MS] @ R))"
    and R: "R = [TabsQuery 1 (Some 5), TabsQuery 1 None,
          TabsMove 20 1 (min (int (length [tab7, tab10, tab20])) (lastIndex_loop (- 1) [tab7, tab10] + 1))]"
    using place_after_group_retries_once [OF q1 ne q2 mv, of "[]", THEN conjunct1] fresh
    by auto
  have one: "place_after_group1 ?S 20 1 5 ([?g, ?a, RFail, ?g, ?a, ROk], []) =
      (Inr (), ([?g, ?a, ROk], [] @ [TabsQuery 1 (Some 5), TabsQuery 1 None,
          TabsMove 20 1 (min (int (length [tab7, tab10, tab20])) (lastIndex_loop (- 1) [tab7, tab10] + 1))]))"
    by (rule place_after_group_retries_once [OF q1 ne q2 mv, of "[]", THEN conjunct2])
  have direct: "fst (snd (place_after_group ?S 20 1 5 ([?g, ?a, RFail, ?g, ?a, ROk], []))) = []"
    by (simp add: place_after_group_def retry_move_def lastIndexOfGroup_def call_query_def
        call_move_def wait_def scripted_def tab7_def tab10_def)
  show ?thesis using run R direct one unfolding t by simp
qed

section \<open>The relocator on the reference host\<close>

lemma find_filter_none: "find (\<lambda>y. sid y = i) (filter (\<lambda>y. sid y \<noteq> i) ys) = None"
  by (induction ys) simp_all

lemma find_append_tail:
  "find P xs = None \<Longrightarrow> find P (xs @ ys) = find P ys"
  by (induction xs) (simp_all split: if_splits)

lemma find_stab_append:
  "find_stab i (b @ c) = (case find_stab i b of Some r \<Rightarrow> Some r | None \<Rightarrow> find_stab i c)"
  by (induction b) (simp_all split: option.split)

lemma find_stab_Some:
  "find_stab i b = Some (v, x) \<Longrightarrow> v \<in> set (map fst b) \<and> sid x = i"
proof (induction b)
  case Nil
  then show ?case by simp
next
  case (Cons p b)
  show ?case
  proof (cases "find (\<lambda>y. sid y = i) (snd p)")
    case None
    then show ?thesis using Cons by simp
  next
    case (Some y)
    then have "sid y = i" by (auto simp: find_Some_iff)
    then show ?thesis using Cons.prems Some by simp
  qed
qed

lemma find_stab_without: "find_stab i (map (without i) b) = None"
  by (induction b) (simp_all add: without_def find_filter_none)

lemma relocate_other: "fst p \<noteq> w \<Longrightarrow> relocate i w k x p = without i p"
  by (simp add: relocate_def without_def Let_def)

lemma relocate_tail:
  "relocate i w (- 1) x p =
     (fst p, if fst p = w then filter (\<lambda>y. sid y \<noteq> i) (snd p) @ [x]
             else filter (\<lambda>y. sid y \<noteq> i) (snd p))"
  by (simp add: relocate_def insert_at_def Let_def)

lemma fst_relocate: "fst (relocate i w k x p) = fst p"
  by (simp add: relocate_def Let_def)

lemma fst_without: "fst (without i p) = fst p"
  by (simp add: without_def)

lemma fold_max_ge: "a \<le> fold max xs (a::int)"
proof (induction xs arbitrary: a)
  case Nil
  then show ?case by simp
next
  case (Cons z xs)
  have "a \<le> max z a" by simp
  also have "\<dots> \<le> fold max xs (max z a)" by (rule Cons.IH)
  finally show ?case by simp
qed

lemma fold_max_mem: "y \<in> set xs \<Longrightarrow> y \<le> fold max xs (a::int)"
proof (induction xs arbitrary: a)
  case Nil
  then show ?case by simp
next
  case (Cons z xs)
  show ?case
  proof (cases "y = z")
    case True
    have "z \<le> max z a" by simp
    also have "\<dots> \<le> fold max xs (max z a)" by (rule fold_max_ge)
    finally show ?thesis using True by simp
  next
    case False
    then show ?thesis using Cons by simp
  qed
qed

lemma fresh_window_new: "fresh_window b \<notin> set (map fst b)"
proof
  assume "fresh_window b \<in> set (map fst b)"
  then have "fresh_window b \<le> fold max (map fst b) 0" by (rule fold_max_mem)
  then show False by (simp add: fresh_window_def)
qed

lemma ungrouped_update: "sgroup x = - 1 \<Longrightarrow> x\<lparr>sgroup := - 1\<rparr> = x"
  by (cases x) simp

lemma relocate_without: "relocate i w k x (without i p) = relocate i w k x p"
  by (simp add: relocate_def without_def Let_def)

lemma map_relocate_fresh:
  "f \<notin> set (map fst b) \<Longrightarrow> map (relocate i f k x) b = map (without i) b"
  by (induction b) (simp_all add: relocate_other)

lemma filter_relocate_fresh:
  "f \<notin> set (map fst b) \<Longrightarrow> filter (\<lambda>p. fst p \<noteq> f) (map (relocate i w k x) b) = map (relocate i w k x) b"
  by (induction b) (simp_all add: fst_relocate)

lemma hop_on_ungrouped:
  assumes f: "find_stab i b = Some (v, x)" and g: "sgroup x = - 1" and w: "w \<in> set (map fst b)"
  shows "ensureUngrouped (reference_host False) i w (b, log) =
           (map (relocate i w (- 1) x) b,
            log @ [WindowsCreate, TabsMove i (fresh_window b) (- 1), TabsMove i w (- 1),
                   WindowsRemove (fresh_window b)])"
proof -
  let ?R = "reference_host False"
  let ?f = "fresh_window b"
  have fr: "?f \<notin> set (map fst b)" by (rule fresh_window_new)
  have wf: "w \<noteq> ?f" using fr w by blast
  have six: "sid x = i" using find_stab_Some [OF f] by simp
  have keep: "x\<lparr>sgroup := - 1\<rparr> = x" using g by (rule ungrouped_update)
  have c: "windows_create ?R b = (Inr ?f, b @ [(?f, [])])"
    by (simp add: reference_host_def ref_create_def)
  have f1: "find_stab i (b @ [(?f, [])]) = Some (v, x)"
    using f by (simp add: find_stab_append)
  have m1: "tabs_move ?R i ?f (- 1) (b @ [(?f, [])]) = (Inr (), map (without i) b @ [(?f, [x])])"
    using f1 keep fr
    by (simp add: reference_host_def ref_move_def map_relocate_fresh relocate_tail)
  have f2: "find_stab i (map (without i) b @ [(?f, [x])]) = Some (?f, x)"
    using six by (simp add: find_stab_append find_stab_without)
  have m2: "tabs_move ?R i w (- 1) (map (without i) b @ [(?f, [x])]) =
      (Inr (), map (relocate i w (- 1) x) b @ [(?f, [])])"
  proof -
    have a: "map (relocate i w (- 1) x) (map (without i) b) = map (relocate i w (- 1) x) b"
      by (simp add: relocate_without)
    have b: "relocate i w (- 1) x (?f, [x]) = (?f, [])"
      using wf six by (simp add: relocate_tail)
    have win: "w \<in> set (map fst (map (without i) b @ [(?f, [x])]))"
      using w by (simp add: fst_without image_image)
    show ?thesis
      using f2 keep wf win a b by (simp add: reference_host_def ref_move_def)
  qed
  have rm: "windows_remove ?R ?f (map (relocate i w (- 1) x) b @ [(?f, [])]) =
      (Inr (), map (relocate i w (- 1) x) b)"
    using fr by (simp add: reference_host_def ref_remove_def filter_relocate_fresh)
  have "ensureUngrouped ?R i w (b, log) = window_hop ?R i w (b, log)"
    by (simp add: ensureUngrouped_def reference_host_def)
  then show ?thesis using window_hop_full [OF c m1 m2 rm] by simp
qed

lemma find_stab_mem:
  "find_stab i b = Some (v, x) \<Longrightarrow> \<exists>p \<in> set b. x \<in> set (snd p)"
proof (induction b)
  case Nil
  then show ?case by simp
next
  case (Cons p b)
  show ?case
  proof (cases "find (\<lambda>y. sid y = i) (snd p)")
    case None
    then show ?thesis using Cons by simp
  next
    case (Some y)
    then have "y \<in> set (snd p)" by (auto simp: find_Some_iff)
    then show ?thesis using Cons.prems Some by simp
  qed
qed

lemma ungrouped_in_found:
  assumes "find_stab i b = Some (v, x)" and "ungrouped_in i b"
  shows "sgroup x = - 1"
proof -
  obtain p where p: "p \<in> set b" "x \<in> set (snd p)" using find_stab_mem [OF assms(1)] by blast
  have "sid x = i" using find_stab_Some [OF assms(1)] by simp
  then show ?thesis using assms(2) p by (auto simp: ungrouped_in_def list_all_iff)
qed

lemma ungroup_in_id:
  assumes "list_all (\<lambda>y. sid y = i \<longrightarrow> sgroup y = - 1) (snd p)"
  shows "ungroup_in [i] p = p"
proof -
  have "map (\<lambda>y. if sid y \<in> set [i] then y\<lparr>sgroup := - 1\<rparr> else y) (snd p) = snd p"
    using assms by (intro map_idI) (auto simp: list_all_iff ungrouped_update)
  then show ?thesis by (simp add: ungroup_in_def)
qed

lemma native_on_ungrouped:
  assumes f: "find_stab i b = Some (v, x)" and u: "ungrouped_in i b"
  shows "ensureUngrouped (reference_host True) i w (b, log) = (b, log @ [TabsUngroup [i]])"
proof -
  have "map (ungroup_in [i]) b = b"
    using u by (intro map_idI) (simp add: ungrouped_in_def list_all_iff ungroup_in_id)
  then have "ref_ungroup [i] b = (Inr (), b)" using f by (simp add: ref_ungroup_def)
  then show ?thesis
    by (simp add: ensureUngrouped_def call_ungroup_def reference_host_def)
qed

lemma find_stab_relocated:
  "w \<in> set (map fst b) \<Longrightarrow> sid x = i \<Longrightarrow>
     find_stab i (map (relocate i w (- 1) x) b) = Some (w, x)"
proof (induction b)
  case Nil
  then show ?case by simp
next
  case (Cons p b)
  show ?case
  proof (cases "fst p = w")
    case True
    have "find (\<lambda>y. sid y = i) (filter (\<lambda>y. sid y \<noteq> i) (snd p) @ [x]) = Some x"
      using Cons.prems(2) by (simp add: find_append_tail find_filter_none)
    then show ?thesis using True by (simp add: relocate_tail)
  next
    case False
    then show ?thesis using Cons by (simp add: relocate_tail find_filter_none)
  qed
qed

lemma relocate_twice:
  "sid x = i \<Longrightarrow> relocate i w (- 1) x (relocate i w (- 1) x p) = relocate i w (- 1) x p"
  by (simp add: relocate_tail)

lemma fresh_window_relocate: "fresh_window (map (relocate i w k x) b) = fresh_window b"
  by (simp add: fresh_window_def fst_relocate comp_def)

text \<open>
  Claim C7, amended. On the reference host, for a tab that is present and already
  ungrouped: with the native primitive \<open>ensureUngrouped\<close> issues the one ungroup
  call and leaves the host state as it was; without it the window hop runs all the
  same and leaves the tab ungrouped but at the tail of the window passed in (every
  window loses the tab, that window gets it appended), so the index changes unless
  the tab was last already; a second call right after the first leaves the tab lists
  as the first left them.
\<close>

theorem ensureUngrouped_on_ungrouped_tab:
  assumes f: "find_stab i b = Some (v, x)" and u: "ungrouped_in i b"
    and w: "w \<in> set (map fst b)"
  shows "ensureUngrouped (reference_host True) i w (b, log) = (b, log @ [TabsUngroup [i]]) \<and>
         ensureUngrouped (reference_host False) i w (b, log) =
           (map (relocate i w (- 1) x) b,
            log @ [WindowsCreate, TabsMove i (fresh_window b) (- 1), TabsMove i w (- 1),
                   WindowsRemove (fresh_window b)]) \<and>
         fst (ensureUngrouped (reference_host False) i w
                (ensureUngrouped (reference_host False) i w (b, log))) =
           fst (ensureUngrouped (reference_host False) i w (b, log)) \<and>
         sgroup x = - 1 \<and>
         (\<forall>p \<in> set b. relocate i w (- 1) x p =
            (fst p, if fst p = w then filter (\<lambda>y. sid y \<noteq> i) (snd p) @ [x]
                    else filter (\<lambda>y. sid y \<noteq> i) (snd p)))"
proof -
  let ?b = "map (relocate i w (- 1) x) b"
  let ?l = "log @ [WindowsCreate, TabsMove i (fresh_window b) (- 1), TabsMove i w (- 1),
                   WindowsRemove (fresh_window b)]"
  have g: "sgroup x = - 1" by (rule ungrouped_in_found [OF f u])
  have six: "sid x = i" using find_stab_Some [OF f] by simp
  have a: "ensureUngrouped (reference_host True) i w (b, log) = (b, log @ [TabsUngroup [i]])"
    by (rule native_on_ungrouped [OF f u])
  have h: "ensureUngrouped (reference_host False) i w (b, log) = (?b, ?l)"
    by (rule hop_on_ungrouped [OF f g w])
  have f2: "find_stab i ?b = Some (w, x)" by (rule find_stab_relocated [OF w six])
  have w2: "w \<in> set (map fst ?b)" using w by (simp add: fst_relocate image_image)
  have "fst (ensureUngrouped (reference_host False) i w (?b, ?l)) = map (relocate i w (- 1) x) ?b"
    using hop_on_ungrouped [OF f2 g w2, of ?l] by simp
  also have "\<dots> = ?b" using six by (simp add: relocate_twice)
  finally have twice: "fst (ensureUngrouped (reference_host False) i w
                (ensureUngrouped (reference_host False) i w (b, log))) =
           fst (ensureUngrouped (reference_host False) i w (b, log))"
    using h by simp
  have r: "\<forall>p \<in> set b. relocate i w (- 1) x p =
            (fst p, if fst p = w then filter (\<lambda>y. sid y \<noteq> i) (snd p) @ [x]
                    else filter (\<lambda>y. sid y \<noteq> i) (snd p))"
    by (simp add: relocate_tail)
  from a h twice g r show ?thesis by blast
qed

text \<open>
  Claim C7, as stated, fails in the configuration without the native primitive: the
  ungrouped tab 9 at index 0 of the window of Scenario 2 is at index 4 after the call.
\<close>

theorem ensureUngrouped_hop_moves_ungrouped_tab_counterexample:
  "tabs_get (reference_host False) 9 scenario2 =
     (Inr \<lparr>tab_id = 9, windowId = 1, groupId = Some (- 1), index = 0, openerTabId = None\<rparr>,
      scenario2) \<and>
   fst (ensureUngrouped (reference_host False) 9 1 (scenario2, [])) =
     [(1, [\<lparr>sid = 10, sgroup = 5, sopener = None\<rparr>,
           \<lparr>sid = 11, sgroup = 5, sopener = None\<rparr>,
           \<lparr>sid = 12, sgroup = - 1, sopener = None\<rparr>,
           \<lparr>sid = 14, sgroup = - 1, sopener = Some 12\<rparr>,
           \<lparr>sid = 9, sgroup = - 1, sopener = None\<rparr>])] \<and>
   tabs_get (reference_host False) 9
       (fst (ensureUngrouped (reference_host False) 9 1 (scenario2, []))) =
     (Inr \<lparr>tab_id = 9, windowId = 1, groupId = Some (- 1), index = 4, openerTabId = None\<rparr>,
      fst (ensureUngrouped (reference_host False) 9 1 (scenario2, [])))"
proof -
  have a: "tabs_get (reference_host False) 9 scenario2 =
     (Inr \<lparr>tab_id = 9, windowId = 1, groupId = Some (- 1), index = 0, openerTabId = None\<rparr>,
      scenario2)"
    by (simp add: reference_host_def ref_get_def scenario2_def snapshot_def)
  have b: "fst (ensureUngrouped (reference_host False) 9 1 (scenario2, [])) =
     [(1, [\<lparr>sid = 10, sgroup = 5, sopener = None\<rparr>,
           \<lparr>sid = 11, sgroup = 5, sopener = None\<rparr>,
           \<lparr>sid = 12, sgroup = - 1, sopener = None\<rparr>,
           \<lparr>sid = 14, sgroup = - 1, sopener = Some 12\<rparr>,
           \<lparr>sid = 9, sgroup = - 1, sopener = None\<rparr>])]"
    by (simp add: ensureUngrouped_def window_hop_def call_create_def call_move_def
        call_remove_def reference_host_def ref_create_def ref_move_def ref_remove_def
        relocate_def insert_at_def fresh_window_def scenario2_def Let_def)
  have c: "tabs_get (reference_host False) 9
     [(1, [\<lparr>sid = 10, sgroup = 5, sopener = None\<rparr>,
           \<lparr>sid = 11, sgroup = 5, sopener = None\<rparr>,
           \<lparr>sid = 12, sgroup = - 1, sopener = None\<rparr>,
           \<lparr>sid = 14, sgroup = - 1, sopener = Some 12\<rparr>,
           \<lparr>sid = 9, sgroup = - 1, sopener = None\<rparr>])] =
     (Inr \<lparr>tab_id = 9, windowId = 1, groupId = Some (- 1), index = 4, openerTabId = None\<rparr>,
     [(1, [\<lparr>sid = 10, sgroup = 5, sopener = None\<rparr>,
           \<lparr>sid = 11, sgroup = 5, sopener = None\<rparr>,
           \<lparr>sid = 12, sgroup = - 1, sopener = None\<rparr>,
           \<lparr>sid = 14, sgroup = - 1, sopener = Some 12\<rparr>,
           \<lparr>sid = 9, sgroup = - 1, sopener = None\<rparr>])])"
    by (simp add: reference_host_def ref_get_def snapshot_def)
  show ?thesis using a b c by simp
qed

theorem ensureUngrouped_on_ungrouped_tab_witness:
  "find_stab 9 scenario2 = Some (1, \<lparr>sid = 9, sgroup = - 1, sopener = None\<rparr>) \<and>
   ungrouped_in 9 scenario2 \<and>
   ensureUngrouped (reference_host True) 9 1 (scenario2, []) = (scenario2, [TabsUngroup [9]]) \<and>
   ensureUngrouped (reference_host False) 9 1 (scenario2, []) =
     ([(1, [\<lparr>sid = 10, sgroup = 5, sopener = None\<rparr>,
            \<lparr>sid = 11, sgroup = 5, sopener = None\<rparr>,
            \<lparr>sid = 12, sgroup = - 1, sopener = None\<rparr>,
            \<lparr>sid = 14, sgroup = - 1, sopener = Some 12\<rparr>,
            \<lparr>sid = 9, sgroup = - 1, sopener = None\<rparr>])],
      [WindowsCreate, TabsMove 9 2 (- 1), TabsMove 9 1 (- 1), WindowsRemove 2]) \<and>
   fst (ensureUngrouped (reference_host False) 9 1
          (ensureUngrouped (reference_host False) 9 1 (scenario2, []))) =
     fst (ensureUngrouped (reference_host False) 9 1 (scenario2, []))"
proof -
  let ?x = "\<lparr>sid = 9, sgroup = - 1, sopener = None\<rparr>"
  have f: "find_stab 9 scenario2 = Some (1, ?x)"
    by (simp add: scenario2_def)
  have u: "ungrouped_in 9 scenario2"
    by (simp add: ungrouped_in_def scenario2_def)
  have w: "1 \<in> set (map fst scenario2)"
    by (simp add: scenario2_def)
  note t = ensureUngrouped_on_ungrouped_tab [OF f u w, of "[]"]
  have fr: "fresh_window scenario2 = 2"
    by (simp add: fresh_window_def scenario2_def)
  have r: "map (relocate 9 1 (- 1) ?x) scenario2 =
     [(1, [\<lparr>sid = 10, sgroup = 5, sopener = None\<rparr>,
            \<lparr>sid = 11, sgroup = 5, sopener = None\<rparr>,
            \<lparr>sid = 12, sgroup = - 1, sopener = None\<rparr>,
            \<lparr>sid = 14, sgroup = - 1, sopener = Some 12\<rparr>,
            \<lparr>sid = 9, sgroup = - 1, sopener = None\<rparr>])]"
    by (simp add: relocate_def insert_at_def scenario2_def Let_def)
  have a: "ensureUngrouped (reference_host True) 9 1 (scenario2, []) = (scenario2, [TabsUngroup [9]])"
    using t by simp
  have b: "ensureUngrouped (reference_host False) 9 1 (scenario2, []) =
     (map (relocate 9 1 (- 1) ?x) scenario2,
      [WindowsCreate, TabsMove 9 2 (- 1), TabsMove 9 1 (- 1), WindowsRemove 2])"
    using t fr by simp
  have c: "fst (ensureUngrouped (reference_host False) 9 1
          (ensureUngrouped (reference_host False) 9 1 (scenario2, []))) =
     fst (ensureUngrouped (reference_host False) 9 1 (scenario2, []))"
    using t by blast
  show ?thesis using f u a b c unfolding r by simp
qed

section \<open>Placement on the reference host\<close>

text \<open>
  Where the reference host puts a moved tab: an accepted move to index \<open>k \<ge> 0\<close>
  within the tab's own window leaves the tab at index \<open>k\<close>, or at the tail when \<open>k\<close>
  exceeds the number of the other tabs of the window.
\<close>

lemma find_window_tabs_none:
  "\<forall>y \<in> set ys. sid y \<noteq> i \<Longrightarrow> find (\<lambda>t. tab_id t = i) (window_tabs v j ys) = None"
  by (induction ys arbitrary: j) (simp_all add: snapshot_def)

lemma find_window_tabs_at:
  "\<forall>y \<in> set as. sid y \<noteq> i \<Longrightarrow> sid x = i \<Longrightarrow>
     find (\<lambda>t. tab_id t = i) (window_tabs v j (as @ x # bs)) = Some (snapshot v (j + length as) x)"
  by (induction as arbitrary: j) (simp_all add: snapshot_def)

lemma find_append_head:
  "find P xs = Some a \<Longrightarrow> find P (xs @ ys) = Some a"
  by (induction xs) (simp_all split: if_splits)

lemma find_all_tabs_relocated:
  assumes "map_of b w = Some xs" and "sid x = i" and "0 \<le> k"
  shows "find (\<lambda>t. tab_id t = i) (all_tabs (map (relocate i w k x) b)) =
           Some (snapshot w (min (nat k) (length (filter (\<lambda>y. sid y \<noteq> i) xs))) x)"
  using assms(1)
proof (induction b)
  case Nil
  then show ?case by simp
next
  case (Cons p b)
  let ?ys = "filter (\<lambda>y. sid y \<noteq> i) (snd p)"
  show ?case
  proof (cases "fst p = w")
    case True
    then have xs: "snd p = xs" using Cons.prems by (cases p) simp
    have no: "\<forall>y \<in> set (take (nat k) ?ys). sid y \<noteq> i"
      by (auto dest: in_set_takeD)
    have "find (\<lambda>t. tab_id t = i) (window_tabs w 0 (take (nat k) ?ys @ x # drop (nat k) ?ys)) =
        Some (snapshot w (0 + length (take (nat k) ?ys)) x)"
      using no assms(2) by (rule find_window_tabs_at)
    then have "find (\<lambda>t. tab_id t = i) (window_tabs w 0 (insert_at k x ?ys)) =
        Some (snapshot w (min (nat k) (length ?ys)) x)"
      using assms(3) by (simp add: insert_at_def min.commute)
    then show ?thesis using True xs
      by (simp add: relocate_def Let_def find_append_head)
  next
    case False
    then have m: "map_of b w = Some xs" using Cons.prems by (cases p) simp
    have "find (\<lambda>t. tab_id t = i) (window_tabs (fst p) 0 ?ys) = None"
      by (rule find_window_tabs_none) simp
    then show ?thesis using False Cons.IH [OF m]
      by (simp add: relocate_def Let_def find_append_tail)
  qed
qed

lemma map_of_window: "map_of b w = Some xs \<Longrightarrow> w \<in> set (map fst b)"
  by (metis domI dom_map_of_conv_image_fst set_map)

lemma ref_move_places:
  assumes f: "find_stab i b = Some (w, x)" and m: "map_of b w = Some xs" and k: "0 \<le> k"
  shows "ref_move i w k b = (Inr (), map (relocate i w k x) b) \<and>
         ref_get i (map (relocate i w k x) b) =
           (Inr (snapshot w (min (nat k) (length (filter (\<lambda>y. sid y \<noteq> i) xs))) x),
            map (relocate i w k x) b)"
proof -
  have six: "sid x = i" using find_stab_Some [OF f] by simp
  have a: "ref_move i w k b = (Inr (), map (relocate i w k x) b)"
    using f map_of_window [OF m] by (simp add: ref_move_def)
  have b: "ref_get i (map (relocate i w k x) b) =
           (Inr (snapshot w (min (nat k) (length (filter (\<lambda>y. sid y \<noteq> i) xs))) x),
            map (relocate i w k x) b)"
    using find_all_tabs_relocated [OF m six k] by (simp add: ref_get_def)
  from a b show ?thesis by simp
qed

lemma once_filter_length:
  "length (filter (\<lambda>y. sid y = i) xs) = 1 \<Longrightarrow>
     length (filter (\<lambda>y. sid y \<noteq> i) xs) = length xs - 1"
  using sum_length_filter_compl [of "\<lambda>y. sid y = i" xs] by simp

lemmas ref_defs = reference_host_def ref_get_def ref_query_def ref_move_def ref_ungroup_def
  ref_create_def ref_remove_def ungroup_in_def relocate_def insert_at_def fresh_window_def
  snapshot_def candidateId_def Let_def

text \<open>
  The tabs of a window as the queries report them, and the tab found by its id.
\<close>

lemma find_split:
  "find (\<lambda>y. sid y = i) ys = Some x \<Longrightarrow>
     \<exists>as bs. ys = as @ x # bs \<and> (\<forall>y \<in> set as. sid y \<noteq> i) \<and> sid x = i"
proof (induction ys)
  case Nil
  then show ?case by simp
next
  case (Cons y ys)
  show ?case
  proof (cases "sid y = i")
    case True
    then have "x = y" using Cons.prems by simp
    then have "y # ys = [] @ x # ys \<and> (\<forall>y \<in> set []. sid y \<noteq> i) \<and> sid x = i"
      using True by simp
    then show ?thesis by blast
  next
    case False
    then have "find (\<lambda>y. sid y = i) ys = Some x" using Cons.prems by simp
    then obtain as bs where s: "ys = as @ x # bs" "\<forall>y \<in> set as. sid y \<noteq> i" "sid x = i"
      using Cons.IH by blast
    have "y # ys = (y # as) @ x # bs \<and> (\<forall>z \<in> set (y # as). sid z \<noteq> i) \<and> sid x = i"
      using s False by simp
    then show ?thesis by blast
  qed
qed

lemma find_none_all: "find (\<lambda>y. sid y = i) ys = None \<Longrightarrow> \<forall>y \<in> set ys. sid y \<noteq> i"
  by (simp add: find_None_iff)

lemma window_tabs_windowId: "t \<in> set (window_tabs v j ys) \<Longrightarrow> windowId t = v"
  by (induction ys arbitrary: j) (auto simp: snapshot_def)

lemma length_window_tabs: "length (window_tabs v j ys) = length ys"
  by (induction ys arbitrary: j) simp_all

lemma filter_other_window:
  "v \<noteq> w \<Longrightarrow> filter (\<lambda>t. windowId t = w \<and> Q t) (window_tabs v j ys) = []"
  by (auto simp: filter_empty_conv dest: window_tabs_windowId)

lemma filter_same_window:
  "filter (\<lambda>t. windowId t = w \<and> Q t) (window_tabs w j ys) = filter Q (window_tabs w j ys)"
  by (rule filter_cong) (auto dest: window_tabs_windowId)

lemma filter_absent_window:
  "w \<notin> set (map fst c) \<Longrightarrow> filter (\<lambda>t. windowId t = w \<and> Q t) (all_tabs c) = []"
  by (induction c) (simp_all add: filter_other_window)

lemma filter_window:
  "distinct (map fst c) \<Longrightarrow> map_of c w = Some ys \<Longrightarrow>
     filter (\<lambda>t. windowId t = w \<and> Q t) (all_tabs c) = filter Q (window_tabs w 0 ys)"
proof (induction c)
  case Nil
  then show ?case by simp
next
  case (Cons p c)
  show ?case
  proof (cases "fst p = w")
    case True
    then have ys: "snd p = ys" using Cons.prems(2) by (cases p) simp
    have "w \<notin> set (map fst c)" using Cons.prems(1) True by auto
    then show ?thesis using True ys by (simp add: filter_absent_window filter_same_window)
  next
    case False
    then have "map_of c w = Some ys" using Cons.prems(2) by (cases p) simp
    then show ?thesis using False Cons by (simp add: filter_other_window)
  qed
qed

lemma find_stab_window:
  "distinct (map fst c) \<Longrightarrow> find_stab i c = Some (w, x) \<Longrightarrow>
     \<exists>ys. map_of c w = Some ys \<and> find (\<lambda>y. sid y = i) ys = Some x \<and>
          find (\<lambda>t. tab_id t = i) (all_tabs c) = find (\<lambda>t. tab_id t = i) (window_tabs w 0 ys)"
proof (induction c)
  case Nil
  then show ?case by simp
next
  case (Cons p c)
  show ?case
  proof (cases "find (\<lambda>y. sid y = i) (snd p)")
    case (Some y)
    then have eq: "fst p = w" "y = x" using Cons.prems(2) by simp_all
    obtain as bs where s: "snd p = as @ x # bs" "\<forall>y \<in> set as. sid y \<noteq> i" "sid x = i"
      using find_split Some eq by blast
    have "find (\<lambda>t. tab_id t = i) (window_tabs w 0 (snd p)) = Some (snapshot w (0 + length as) x)"
      unfolding s(1) using s(2) s(3) by (rule find_window_tabs_at)
    then have "find (\<lambda>t. tab_id t = i) (all_tabs (p # c)) =
        find (\<lambda>t. tab_id t = i) (window_tabs w 0 (snd p))"
      using eq by (simp add: find_append_head)
    moreover have "map_of (p # c) w = Some (snd p)" using eq by (cases p) simp
    ultimately show ?thesis using Some eq by blast
  next
    case None
    then have rest: "find_stab i c = Some (w, x)" using Cons.prems(2) by simp
    have "w \<in> set (map fst c)" using find_stab_Some [OF rest] by simp
    then have ne: "fst p \<noteq> w" using Cons.prems(1) by auto
    have d: "distinct (map fst c)" using Cons.prems(1) by simp
    obtain ys where ys: "map_of c w = Some ys" "find (\<lambda>y. sid y = i) ys = Some x"
      "find (\<lambda>t. tab_id t = i) (all_tabs c) = find (\<lambda>t. tab_id t = i) (window_tabs w 0 ys)"
      using Cons.IH [OF d rest] by blast
    have "find (\<lambda>t. tab_id t = i) (window_tabs (fst p) 0 (snd p)) = None"
      using find_none_all [OF None] by (rule find_window_tabs_none)
    then have "find (\<lambda>t. tab_id t = i) (all_tabs (p # c)) =
        find (\<lambda>t. tab_id t = i) (window_tabs w 0 ys)"
      using ys(3) by (simp add: find_append_tail)
    moreover have "map_of (p # c) w = Some ys" using ne ys(1) by (cases p) simp
    ultimately show ?thesis using ys(2) by blast
  qed
qed

lemma window_all:
  "distinct (map fst c) \<Longrightarrow> map_of c w = Some ys \<Longrightarrow>
     filter (\<lambda>t. windowId t = w) (all_tabs c) = window_tabs w 0 ys"
  using filter_window [of c w ys "\<lambda>t. True"] by simp

lemma ref_place:
  assumes wf: "distinct (map fst c)"
    and f: "find_stab i c = Some (w, x)"
    and t3: "ref_get i c = (Inr t3, c)"
    and q1: "ref_query w (Some g) c = (Inr members, c)"
    and ne: "members \<noteq> []"
    and behind: "\<forall>m \<in> set members. index m < index t3"
    and q2: "ref_query w None c = (Inr allTabs, c)"
  shows "\<exists>c'. ref_move i w
                 (min (int (length allTabs)) (Max (set (map (\<lambda>t. int (index t)) members)) + 1)) c =
                 (Inr (), c') \<and>
              ref_get i c' =
                 (Inr (snapshot w (nat (Max (set (map (\<lambda>t. int (index t)) members)) + 1)) x), c') \<and>
              Max (set (map (\<lambda>t. int (index t)) members)) + 1 \<le> int (length allTabs)"
proof -
  let ?S = "set (map (\<lambda>t. int (index t)) members)"
  let ?E = "Max ?S"
  obtain ys where m: "map_of c w = Some ys" and fy: "find (\<lambda>y. sid y = i) ys = Some x"
    and fa: "find (\<lambda>t. tab_id t = i) (all_tabs c) = find (\<lambda>t. tab_id t = i) (window_tabs w 0 ys)"
    using find_stab_window [OF wf f] by blast
  obtain as bs where ys: "ys = as @ x # bs" and before: "\<forall>y \<in> set as. sid y \<noteq> i"
    and six: "sid x = i"
    using find_split [OF fy] by blast
  have "find (\<lambda>t. tab_id t = i) (window_tabs w 0 ys) = Some (snapshot w (0 + length as) x)"
    unfolding ys using before six by (rule find_window_tabs_at)
  then have "t3 = snapshot w (length as) x"
    using t3 fa by (simp add: ref_get_def split: option.splits)
  then have p: "index t3 = length as" by (simp add: snapshot_def)
  have "allTabs = window_tabs w 0 ys"
    using q2 window_all [OF wf m] by (simp add: ref_query_def)
  then have len: "length allTabs = length as + 1 + length bs"
    using ys by (simp add: length_window_tabs)
  have fin: "finite ?S" and ne': "?S \<noteq> {}" using ne by simp_all
  have lt: "?E < int (length as)"
    using behind p fin ne' by (simp add: Max_less_iff)
  obtain a where "a \<in> set members" using ne by (cases members) auto
  then have "int (index a) \<in> ?S" by simp
  then have "int (index a) \<le> ?E" using fin by (simp add: Max_ge)
  then have nn: "0 \<le> ?E" by simp
  let ?k = "min (int (length allTabs)) (?E + 1)"
  have k: "?k = ?E + 1" using lt len by simp
  have k0: "0 \<le> ?k" using nn k by simp
  have keep: "length (filter (\<lambda>y. sid y \<noteq> i) ys) \<ge> length as"
    using before ys by (simp add: filter_id_conv [THEN iffD2])
  have mn: "min (nat ?k) (length (filter (\<lambda>y. sid y \<noteq> i) ys)) = nat (?E + 1)"
    using keep lt k by simp
  have "ref_move i w ?k c = (Inr (), map (relocate i w ?k x) c) \<and>
        ref_get i (map (relocate i w ?k x) c) =
          (Inr (snapshot w (min (nat ?k) (length (filter (\<lambda>y. sid y \<noteq> i) ys))) x),
           map (relocate i w ?k x) c)"
    by (rule ref_move_places [OF f m k0])
  then have "ref_move i w ?k c = (Inr (), map (relocate i w ?k x) c) \<and>
        ref_get i (map (relocate i w ?k x) c) =
          (Inr (snapshot w (nat (?E + 1)) x), map (relocate i w ?k x) c)"
    using mn by simp
  moreover have "?E + 1 \<le> int (length allTabs)" using lt len by simp
  ultimately show ?thesis by blast
qed

text \<open>
  The resolver and \<open>ensureUngrouped\<close> on the reference host, for a tab that may
  still be grouped: with the native primitive the tab is ungrouped where it stands,
  without it the window hop leaves it ungrouped at the tail of the window.
\<close>

lemma ref_try_get:
  assumes "try_get (reference_host native) j (b, l) = (Some t, s)"
  shows "s = (b, l @ [TabsGet j]) \<and> ref_get j b = (Inr t, b) \<and> tab_id t = j"
proof (cases "find (\<lambda>t. tab_id t = j) (all_tabs b)")
  case None
  then show ?thesis using assms
    by (simp add: try_get_def call_get_def reference_host_def ref_get_def)
next
  case (Some t')
  then have "tab_id t' = j" by (auto simp: find_Some_iff)
  then show ?thesis using assms Some
    by (auto simp: try_get_def call_get_def reference_host_def ref_get_def)
qed

lemma ref_try_get_state:
  "try_get (reference_host native) j (b, l) = (r, s) \<Longrightarrow> fst s = b"
  by (cases "find (\<lambda>t. tab_id t = j) (all_tabs b)")
     (auto simp: try_get_def call_get_def reference_host_def ref_get_def)

lemma ref_resolved:
  assumes "getOpenerForNewTab (reference_host native) m n (b, l0) = (Some opener, s1)"
  shows "\<exists>l1. s1 = (b, l1) \<and> ref_get (tab_id opener) b = (Inr opener, b)"
proof -
  let ?R = "reference_host native"
  obtain r1 s' where first:
    "(case openerTabId n of Some oid \<Rightarrow> try_get ?R oid (b, l0) | None \<Rightarrow> (None, (b, l0))) = (r1, s')"
    by (metis surj_pair)
  have st: "fst s' = b"
  proof (cases "openerTabId n")
    case None
    then show ?thesis using first by auto
  next
    case (Some oid)
    then have "try_get ?R oid (b, l0) = (r1, s')" using first by simp
    then show ?thesis by (rule ref_try_get_state)
  qed
  obtain l' where s': "s' = (b, l')" using st by (cases s') simp
  show ?thesis
  proof (cases r1)
    case (Some t)
    then have eq: "opener = t" "s1 = s'"
      using assms first by (simp_all add: getOpenerForNewTab_def)
    obtain oid where oid: "openerTabId n = Some oid" using first Some by (cases "openerTabId n") auto
    then have "try_get ?R oid (b, l0) = (Some t, s')" using first Some by simp
    from ref_try_get [OF this] show ?thesis using eq by auto
  next
    case None
    show ?thesis
    proof (cases "candidateId m n")
      case cn: None
      then show ?thesis using assms first None by (simp add: getOpenerForNewTab_def)
    next
      case (Some cid)
      then have "try_get ?R cid (b, l') = (Some opener, s1)"
        using assms first None s' by (simp add: getOpenerForNewTab_def)
      from ref_try_get [OF this] show ?thesis by auto
    qed
  qed
qed

lemma find_ungrouped:
  "find (\<lambda>y. sid y = i) (map (\<lambda>y. if sid y = i then y\<lparr>sgroup := - 1\<rparr> else y) ys) =
     map_option (\<lambda>y. y\<lparr>sgroup := - 1\<rparr>) (find (\<lambda>y. sid y = i) ys)"
  by (induction ys) simp_all

lemma find_stab_ungrouped:
  "find_stab i b = Some (v, x) \<Longrightarrow>
     find_stab i (map (ungroup_in [i]) b) = Some (v, x\<lparr>sgroup := - 1\<rparr>)"
proof (induction b)
  case Nil
  then show ?case by simp
next
  case (Cons p b)
  show ?case
  proof (cases "find (\<lambda>y. sid y = i) (snd p)")
    case None
    then show ?thesis using Cons by (simp add: ungroup_in_def find_ungrouped)
  next
    case (Some y)
    then show ?thesis using Cons.prems by (simp add: ungroup_in_def find_ungrouped)
  qed
qed

lemma native_general:
  assumes "find_stab i b = Some (v, x)"
  shows "ensureUngrouped (reference_host True) i w (b, l) =
           (map (ungroup_in [i]) b, l @ [TabsUngroup [i]])"
  using assms
  by (simp add: ensureUngrouped_def call_ungroup_def reference_host_def ref_ungroup_def)

lemma hop_general:
  assumes f: "find_stab i b = Some (v, x)" and w: "w \<in> set (map fst b)"
  shows "ensureUngrouped (reference_host False) i w (b, l) =
           (map (relocate i w (- 1) (x\<lparr>sgroup := - 1\<rparr>)) b,
            l @ [WindowsCreate, TabsMove i (fresh_window b) (- 1), TabsMove i w (- 1),
                 WindowsRemove (fresh_window b)])"
proof -
  let ?R = "reference_host False"
  let ?f = "fresh_window b"
  let ?x = "x\<lparr>sgroup := - 1\<rparr>"
  have fr: "?f \<notin> set (map fst b)" by (rule fresh_window_new)
  have wf: "w \<noteq> ?f" using fr w by blast
  have vf: "v \<noteq> ?f" using fr find_stab_Some [OF f] by blast
  have six: "sid ?x = i" using find_stab_Some [OF f] by simp
  have c: "windows_create ?R b = (Inr ?f, b @ [(?f, [])])"
    by (simp add: reference_host_def ref_create_def)
  have f1: "find_stab i (b @ [(?f, [])]) = Some (v, x)"
    using f by (simp add: find_stab_append)
  have m1: "tabs_move ?R i ?f (- 1) (b @ [(?f, [])]) = (Inr (), map (without i) b @ [(?f, [?x])])"
    using f1 vf fr
    by (simp add: reference_host_def ref_move_def map_relocate_fresh relocate_tail)
  have f2: "find_stab i (map (without i) b @ [(?f, [?x])]) = Some (?f, ?x)"
    using six by (simp add: find_stab_append find_stab_without)
  have m2: "tabs_move ?R i w (- 1) (map (without i) b @ [(?f, [?x])]) =
      (Inr (), map (relocate i w (- 1) ?x) b @ [(?f, [])])"
  proof -
    have a: "map (relocate i w (- 1) ?x) (map (without i) b) = map (relocate i w (- 1) ?x) b"
      by (simp add: relocate_without)
    have b: "relocate i w (- 1) ?x (?f, [?x]) = (?f, [])"
      using wf six by (simp add: relocate_tail)
    have win: "w \<in> set (map fst (map (without i) b @ [(?f, [?x])]))"
      using w by (simp add: fst_without image_image)
    show ?thesis
      using f2 wf win a b by (simp add: reference_host_def ref_move_def)
  qed
  have rm: "windows_remove ?R ?f (map (relocate i w (- 1) ?x) b @ [(?f, [])]) =
      (Inr (), map (relocate i w (- 1) ?x) b)"
    using fr by (simp add: reference_host_def ref_remove_def filter_relocate_fresh)
  have "ensureUngrouped ?R i w (b, l) = window_hop ?R i w (b, l)"
    by (simp add: ensureUngrouped_def reference_host_def)
  then show ?thesis using window_hop_full [OF c m1 m2 rm] by simp
qed

lemma map_fst_relocate:
  "map fst (map (relocate i w k x) b) = map fst b"
  "map (fst \<circ> relocate i w k x) b = map fst b"
  by (simp_all add: fst_relocate comp_def)

lemma map_fst_ungroup:
  "map fst (map (ungroup_in ids) b) = map fst b"
  "map (fst \<circ> ungroup_in ids) b = map fst b"
  by (simp_all add: ungroup_in_def comp_def)

lemma ref_before_boundary:
  assumes wf: "distinct (map fst b)"
    and new: "find_stab i b = Some (v, x)"
    and pre: "if v = w then b2 = b else ref_move i w (- 1) b = (Inr (), b2)"
  shows "\<exists>c l'. ensureUngrouped (reference_host native) i w (b2, l) = (c, l @ l') \<and>
           c = fst (ensureUngrouped (reference_host native) i w (b2, [])) \<and>
           find_stab i c = Some (w, x\<lparr>sgroup := - 1\<rparr>) \<and> distinct (map fst c)"
proof -
  let ?x = "x\<lparr>sgroup := - 1\<rparr>"
  have six: "sid ?x = i" using find_stab_Some [OF new] by simp
  obtain x2 where f2: "find_stab i b2 = Some (w, x2)" and x2: "x2\<lparr>sgroup := - 1\<rparr> = ?x"
    and w2: "w \<in> set (map fst b2)" and d2: "distinct (map fst b2)"
  proof (cases "v = w")
    case True
    then have "b2 = b" using pre by simp
    then show ?thesis using that [of x] new True wf find_stab_Some [OF new] by simp
  next
    case False
    then have mv: "ref_move i w (- 1) b = (Inr (), b2)" using pre by simp
    then have win: "w \<in> set (map fst b)" using new by (simp add: ref_move_def split: if_splits)
    then have b2: "b2 = map (relocate i w (- 1) ?x) b"
      using mv new False by (simp add: ref_move_def)
    have mf: "map fst b2 = map fst b" unfolding b2 by (rule map_fst_relocate)
    have "find_stab i b2 = Some (w, ?x)" unfolding b2 using win six by (rule find_stab_relocated)
    then show ?thesis using that [of ?x] win wf mf by simp
  qed
  show ?thesis
  proof (cases native)
    case True
    have e: "\<And>k. ensureUngrouped (reference_host native) i w (b2, k) =
        (map (ungroup_in [i]) b2, k @ [TabsUngroup [i]])"
      using native_general [OF f2] True by simp
    have "find_stab i (map (ungroup_in [i]) b2) = Some (w, ?x)"
      using find_stab_ungrouped [OF f2] x2 by simp
    then show ?thesis using e d2 by (simp add: map_fst_ungroup)
  next
    case False
    have e: "\<And>k. ensureUngrouped (reference_host native) i w (b2, k) =
        (map (relocate i w (- 1) ?x) b2,
         k @ [WindowsCreate, TabsMove i (fresh_window b2) (- 1), TabsMove i w (- 1),
              WindowsRemove (fresh_window b2)])"
      using hop_general [OF f2 w2] False x2 by simp
    have "find_stab i (map (relocate i w (- 1) ?x) b2) = Some (w, ?x)"
      using w2 six by (rule find_stab_relocated)
    then show ?thesis using e d2 by (simp add: map_fst_relocate)
  qed
qed

text \<open>
  Claim C1, amended. On the reference host, with or without the native ungroup
  primitive and for both copies of the handler: let the resolved opener belong to
  group \<open>g\<close> in window \<open>W\<close>, and let the new tab, once it is in \<open>W\<close> and has
  gone through \<open>ensureUngrouped\<close>, stand behind every member of \<open>g\<close> that the
  boundary query reports. Then the handler ends normally, and afterwards the new tab
  is in \<open>W\<close>, its group id is the ungrouped sentinel, and its index is the largest
  member index plus one, which is \<open>min (number of tabs of W) (largest member index + 1)\<close>,
  member indices and tab count being those the host reports when the boundary is
  computed. Nothing is said of a new tab that stands before a member of the group at
  that moment.
\<close>

theorem onCreated_final_index:
  assumes wf: "distinct (map fst b)"
    and new: "find_stab (tab_id n) b = Some (windowId n, x)"
    and res: "getOpenerForNewTab (reference_host native) m n (b, l0) = (Some opener, s1)"
    and fg: "groupId opener = Some g"
    and gn: "g \<noteq> - 1"
    and pre: "if windowId n = windowId opener then b2 = b
              else ref_move (tab_id n) (windowId opener) (- 1) b = (Inr (), b2)"
    and c: "c = fst (ensureUngrouped (reference_host native) (tab_id n) (windowId opener) (b2, []))"
    and t3: "ref_get (tab_id n) c = (Inr t3, c)"
    and q1: "ref_query (windowId opener) (Some g) c = (Inr members, c)"
    and ne: "members \<noteq> []"
    and behind: "\<forall>m \<in> set members. index m < index t3"
    and q2: "ref_query (windowId opener) None c = (Inr allTabs, c)"
  shows "\<exists>c' t.
           (\<exists>log. onCreated (reference_host native) m (Some n) (b, l0) = (Inr (), (c', log))) \<and>
           (\<exists>log. onCreated1 (reference_host native) m (Some n) (b, l0) = (Inr (), (c', log))) \<and>
           ref_get (tab_id n) c' = (Inr t, c') \<and>
           windowId t = windowId opener \<and>
           groupId t = Some (- 1) \<and>
           int (index t) = Max (set (map (\<lambda>t. int (index t)) members)) + 1 \<and>
           int (index t) =
             min (int (length allTabs)) (Max (set (map (\<lambda>t. int (index t)) members)) + 1)"
proof -
  let ?R = "reference_host native"
  let ?i = "tab_id n"
  let ?w = "windowId opener"
  let ?E = "Max (set (map (\<lambda>t. int (index t)) members))"
  let ?k = "min (int (length allTabs)) (?E + 1)"
  obtain l1 where s1: "s1 = (b, l1)" and rg: "ref_get (tab_id opener) b = (Inr opener, b)"
    using ref_resolved [OF res] by blast
  have res': "getOpenerForNewTab ?R m n (b, l0) = (Some opener, (b, l1))" using res s1 by simp
  have none: "TAB_GROUP_ID_NONE ?R = - 1" by (simp add: TAB_GROUP_ID_NONE_def reference_host_def)
  have grp: "isGrouped ?R opener" using fg gn none by (simp add: isGrouped_def)
  have gn': "g \<noteq> TAB_GROUP_ID_NONE ?R" using gn none by simp
  have ref2: "tabs_get ?R (tab_id opener) (setTimeout ?R STABILIZE_MS b) = (Inr opener, b)"
    using rg by (simp add: reference_host_def)
  have ref1: "tabs_get ?R (tab_id opener) b = (Inr opener, b)"
    using rg by (simp add: reference_host_def)
  have win: "if windowId n = ?w then b2 = b
             else tabs_move ?R ?i ?w (- 1) b = (Inr (), b2)"
    using pre by (simp add: reference_host_def)
  obtain l2 where run2: "onCreated ?R m (Some n) (b, l0) =
      place_after_group ?R ?i ?w g (ensureUngrouped ?R ?i ?w (b2, l2))"
    using onCreated_reaches_placement [OF res' grp ref2 fg gn' win] by blast
  obtain l2' where run1: "onCreated1 ?R m (Some n) (b, l0) =
      place_after_group1 ?R ?i ?w g (ensureUngrouped ?R ?i ?w (b2, l2'))"
    using onCreated1_reaches_placement [OF res' grp ref1 fg gn' win] by blast
  obtain k2 where e2: "ensureUngrouped ?R ?i ?w (b2, l2) = (c, l2 @ k2)"
    and f: "find_stab ?i c = Some (?w, x\<lparr>sgroup := - 1\<rparr>)" and d: "distinct (map fst c)"
    using ref_before_boundary [OF wf new pre, of native l2] c by blast
  obtain k1 where e1: "ensureUngrouped ?R ?i ?w (b2, l2') = (c, l2' @ k1)"
    using ref_before_boundary [OF wf new pre, of native l2'] c by blast
  obtain c' where mv: "ref_move ?i ?w ?k c = (Inr (), c')"
    and fin: "ref_get ?i c' = (Inr (snapshot ?w (nat (?E + 1)) (x\<lparr>sgroup := - 1\<rparr>)), c')"
    and le: "?E + 1 \<le> int (length allTabs)"
    using ref_place [OF d f t3 q1 ne behind q2] by blast
  have q1': "tabs_query ?R ?w (Some g) c = (Inr members, c)"
    using q1 by (simp add: reference_host_def)
  have q2': "tabs_query ?R ?w None c = (Inr allTabs, c)"
    using q2 by (simp add: reference_host_def)
  have mv': "tabs_move ?R ?i ?w ?k c = (Inr (), c')"
    using mv by (simp add: reference_host_def)
  have a2: "\<exists>log. onCreated ?R m (Some n) (b, l0) = (Inr (), (c', log))"
    using run2 e2 place_accepted [OF q1' ne q2' mv', of "l2 @ k2"] by simp
  have a1: "\<exists>log. onCreated1 ?R m (Some n) (b, l0) = (Inr (), (c', log))"
    using run1 e1 place1_accepted [OF q1' ne q2' mv', of "l2' @ k1"] by simp
  have nn: "0 \<le> ?E" using lastIndex_loop_nonempty [OF ne] by simp
  let ?t = "snapshot ?w (nat (?E + 1)) (x\<lparr>sgroup := - 1\<rparr>)"
  have w: "windowId ?t = ?w" and gr: "groupId ?t = Some (- 1)"
    by (simp_all add: snapshot_def)
  have ix: "int (index ?t) = ?E + 1" using nn by (simp add: snapshot_def)
  have ix2: "int (index ?t) = ?k" using ix le by simp
  from a2 a1 fin w gr ix ix2 show ?thesis by blast
qed

theorem onCreated_final_index_witness:
  "(\<exists>t log. onCreated (reference_host True) Map.empty (Some tab13) (scenario1, []) =
        (Inr (), (scenario1_placed, log)) \<and>
      ref_get 13 scenario1_placed = (Inr t, scenario1_placed) \<and>
      windowId t = 1 \<and> groupId t = Some (- 1) \<and> int (index t) = 3) \<and>
   (\<exists>t log. onCreated (reference_host False) Map.empty (Some tab13) (scenario1, []) =
        (Inr (), (scenario1_placed, log)) \<and>
      ref_get 13 scenario1_placed = (Inr t, scenario1_placed) \<and>
      windowId t = 1 \<and> groupId t = Some (- 1) \<and> int (index t) = 3)"
proof -
  let ?x = "\<lparr>sid = 13, sgroup = 5, sopener = Some 10\<rparr>"
  let ?members = "[snapshot 1 1 \<lparr>sid = 10, sgroup = 5, sopener = None\<rparr>,
                   snapshot 1 2 \<lparr>sid = 11, sgroup = 5, sopener = None\<rparr>]"
  let ?t3 = "snapshot 1 4 \<lparr>sid = 13, sgroup = - 1, sopener = Some 10\<rparr>"
  have wf: "distinct (map fst scenario1)" by (simp add: scenario1_def)
  have new: "find_stab (tab_id tab13) scenario1 = Some (windowId tab13, ?x)"
    by (simp add: scenario1_def tab13_def)
  have res: "getOpenerForNewTab (reference_host native) Map.empty tab13 (scenario1, []) =
      (Some tab10, (scenario1, [TabsGet 10]))" for native
    by (simp add: getOpenerForNewTab_def try_get_def call_get_def reference_host_def ref_get_def
        scenario1_def tab13_def tab10_def snapshot_def)
  have fg: "groupId tab10 = Some 5" by (simp add: tab10_def)
  have gn: "(5::int) \<noteq> - 1" by simp
  have pre: "if windowId tab13 = windowId tab10 then scenario1 = scenario1
             else ref_move (tab_id tab13) (windowId tab10) (- 1) scenario1 = (Inr (), scenario1)"
    by (simp add: tab13_def tab10_def)
  have cT: "scenario1_ungrouped =
      fst (ensureUngrouped (reference_host True) (tab_id tab13) (windowId tab10) (scenario1, []))"
    by (simp add: ensureUngrouped_def call_ungroup_def reference_host_def ref_ungroup_def
        ungroup_in_def scenario1_def scenario1_ungrouped_def tab13_def tab10_def)
  have cF: "scenario1_ungrouped =
      fst (ensureUngrouped (reference_host False) (tab_id tab13) (windowId tab10) (scenario1, []))"
    by (simp add: ensureUngrouped_def window_hop_def call_create_def call_move_def
        call_remove_def reference_host_def ref_create_def ref_move_def ref_remove_def
        relocate_def insert_at_def fresh_window_def scenario1_def scenario1_ungrouped_def
        tab13_def tab10_def Let_def)
  have t3: "ref_get (tab_id tab13) scenario1_ungrouped = (Inr ?t3, scenario1_ungrouped)"
    by (simp add: ref_get_def scenario1_ungrouped_def tab13_def snapshot_def)
  have q1: "ref_query (windowId tab10) (Some 5) scenario1_ungrouped =
      (Inr ?members, scenario1_ungrouped)"
    by (simp add: ref_query_def scenario1_ungrouped_def tab10_def snapshot_def)
  have ne: "?members \<noteq> []" by simp
  have behind: "\<forall>m \<in> set ?members. index m < index ?t3" by (simp add: snapshot_def)
  have q2: "ref_query (windowId tab10) None scenario1_ungrouped =
      (Inr (all_tabs scenario1_ungrouped), scenario1_ungrouped)"
    by (simp add: ref_query_def scenario1_ungrouped_def tab10_def snapshot_def)
  have mx: "Max (set (map (\<lambda>t. int (index t)) ?members)) + 1 = 3"
    by (simp add: snapshot_def)
  have runT: "fst (snd (onCreated (reference_host True) Map.empty (Some tab13) (scenario1, []))) =
      scenario1_placed"
    by (simp add: run_defs ref_defs scenario1_def scenario1_placed_def tab13_def)
  have runF: "fst (snd (onCreated (reference_host False) Map.empty (Some tab13) (scenario1, []))) =
      scenario1_placed"
    by (simp add: run_defs ref_defs scenario1_def scenario1_placed_def tab13_def)
  obtain c' t log where a: "onCreated (reference_host True) Map.empty (Some tab13) (scenario1, []) =
        (Inr (), (c', log))"
    and b: "ref_get (tab_id tab13) c' = (Inr t, c')" "windowId t = windowId tab10"
      "groupId t = Some (- 1)"
      "int (index t) = Max (set (map (\<lambda>t. int (index t)) ?members)) + 1"
    using onCreated_final_index [OF wf new res fg gn pre cT t3 q1 ne behind q2] by blast
  have c'T: "c' = scenario1_placed" using a runT by simp
  have T: "\<exists>t log. onCreated (reference_host True) Map.empty (Some tab13) (scenario1, []) =
        (Inr (), (scenario1_placed, log)) \<and>
      ref_get 13 scenario1_placed = (Inr t, scenario1_placed) \<and>
      windowId t = 1 \<and> groupId t = Some (- 1) \<and> int (index t) = 3"
    using a b c'T mx by (auto simp: tab13_def tab10_def)
  obtain d' u logf where a': "onCreated (reference_host False) Map.empty (Some tab13) (scenario1, []) =
        (Inr (), (d', logf))"
    and b': "ref_get (tab_id tab13) d' = (Inr u, d')" "windowId u = windowId tab10"
      "groupId u = Some (- 1)"
      "int (index u) = Max (set (map (\<lambda>t. int (index t)) ?members)) + 1"
    using onCreated_final_index [OF wf new res fg gn pre cF t3 q1 ne behind q2] by blast
  have d'F: "d' = scenario1_placed" using a' runF by simp
  have F: "\<exists>t log. onCreated (reference_host False) Map.empty (Some tab13) (scenario1, []) =
        (Inr (), (scenario1_placed, log)) \<and>
      ref_get 13 scenario1_placed = (Inr t, scenario1_placed) \<and>
      windowId t = 1 \<and> groupId t = Some (- 1) \<and> int (index t) = 3"
    using a' b' d'F mx by (auto simp: tab13_def tab10_def)
  from T F show ?thesis by (rule conjI)
qed

text \<open>
  Claim C1, as stated, fails on a host that keeps a window's indices dense. In
  \<open>front3\<close> the new tab stands before the group and the group reaches the end of
  the window: when the boundary is computed the members are at indices 1 and 2 and
  the window has 3 tabs, so the claimed final index is \<open>min 3 (2 + 1) = 3\<close>, an
  index a window of three tabs does not have; the handler asks for index 3 and the
  tab becomes the last tab, index 2, right after the group.
\<close>

theorem placement_index_counterexample:
  "onCreated (reference_host True) history2 (Some new_front) (front3, []) =
     (Inr (),
      ([(1, [\<lparr>sid = 7, sgroup = 5, sopener = None\<rparr>,
             \<lparr>sid = 10, sgroup = 5, sopener = None\<rparr>,
             \<lparr>sid = 20, sgroup = - 1, sopener = None\<rparr>])],
       [TabsGet 10, Wait STABILIZE_MS, TabsGet 10, TabsUngroup [20], TabsQuery 1 (Some 5),
        TabsQuery 1 None, TabsMove 20 1 3])) \<and>
   fst (lastIndexOfGroup (reference_host True) 5 1 (front3, [])) = Inr 2 \<and>
   length (all_tabs front3) = 3 \<and>
   tabs_get (reference_host True) 20
      [(1, [\<lparr>sid = 7, sgroup = 5, sopener = None\<rparr>,
            \<lparr>sid = 10, sgroup = 5, sopener = None\<rparr>,
            \<lparr>sid = 20, sgroup = - 1, sopener = None\<rparr>])] =
     (Inr \<lparr>tab_id = 20, windowId = 1, groupId = Some (- 1), index = 2, openerTabId = None\<rparr>,
      [(1, [\<lparr>sid = 7, sgroup = 5, sopener = None\<rparr>,
            \<lparr>sid = 10, sgroup = 5, sopener = None\<rparr>,
            \<lparr>sid = 20, sgroup = - 1, sopener = None\<rparr>])])"
  by (simp add: run_defs ref_defs front3_def new_front_def history2_def)

text \<open>
  A new tab that stands before the group while another tab follows the group: the
  target \<open>min 4 (2 + 1) = 3\<close> does not allow for the removal of the tab itself from
  its place before the group, and the tab ends behind tab 12, one slot past the slot
  after the group.
\<close>

lemma tab_before_group_one_slot_past:
  "onCreated (reference_host True) history2 (Some new_front) (front4, []) =
     (Inr (),
      ([(1, [\<lparr>sid = 7, sgroup = 5, sopener = None\<rparr>,
             \<lparr>sid = 10, sgroup = 5, sopener = None\<rparr>,
             \<lparr>sid = 12, sgroup = - 1, sopener = None\<rparr>,
             \<lparr>sid = 20, sgroup = - 1, sopener = None\<rparr>])],
       [TabsGet 10, Wait STABILIZE_MS, TabsGet 10, TabsUngroup [20], TabsQuery 1 (Some 5),
        TabsQuery 1 None, TabsMove 20 1 3]))"
  by (simp add: run_defs ref_defs front4_def new_front_def history2_def)

end
